theory Spec2Isabelle
  imports Main "HOL-Library.Word"
begin

unbundle bit_operations_syntax

section \<open>Values, errors and streams\<close>

text \<open>
  The serializers of \<^verbatim>\<open>relic/sga/v10/serialization.py\<close> convert between records and
  byte strings.  A byte is an 8-bit word, a Python \<^verbatim>\<open>bytes\<close> object a list of bytes,
  a Python \<^verbatim>\<open>int\<close> an unbounded integer and a Python \<^verbatim>\<open>str\<close> the list of its
  Unicode code points.
\<close>

type_synonym byte = "8 word"
type_synonym bytes = "byte list"
type_synonym pystr = "nat list"

text \<open>
  The objects that travel through a layout or sit in a metadata dictionary.
\<close>

datatype pyval = PyNone | PyInt int | PyBytes bytes | PyStr pystr

text \<open>
  Every exception the modelled code can raise is a value:
  \<^item> \<open>StructError\<close>: \<^verbatim>\<open>struct.error\<close> (a value that does not fit its field, a short read);
  \<^item> \<open>EnumValueError n v\<close>: the \<^verbatim>\<open>ValueError\<close> of calling enumeration \<open>n\<close> on \<open>v\<close>,
    which is none of its members;
  \<^item> \<open>MismatchError n received expected\<close>: \<^verbatim>\<open>relic.core.errors.MismatchError\<close>;
  \<^item> \<open>UnicodeDecodeError\<close>, \<open>UnicodeEncodeError\<close>: the codec errors of \<^verbatim>\<open>utf-16-le\<close>;
  \<^item> \<open>HexValueError\<close>: the \<^verbatim>\<open>ValueError\<close> of \<^verbatim>\<open>bytes.fromhex\<close>;
  \<^item> \<open>KeyError k\<close>: a missing dictionary key;
  \<^item> \<open>TypeError\<close>, \<open>AttributeError\<close>: an object of the wrong kind (such as \<^verbatim>\<open>None\<close>
    where a string or a record is used);
  \<^item> \<open>TupleValueError\<close>: the \<^verbatim>\<open>ValueError\<close> of a tuple assignment that is given
    another number of values than it has targets.
\<close>

datatype error =
    StructError
  | EnumValueError string pyval
  | MismatchError string "int \<times> int" "int \<times> int"
  | UnicodeDecodeError
  | UnicodeEncodeError
  | HexValueError
  | KeyError string
  | TypeError
  | AttributeError
  | TupleValueError

subsection \<open>Binary streams\<close>

text \<open>
  A \<^verbatim>\<open>BinaryIO\<close> is modelled as an in-memory stream (\<^verbatim>\<open>io.BytesIO\<close>): a buffer and
  a cursor.  \<^verbatim>\<open>read(n)\<close> returns at most \<open>n\<close> bytes from the cursor on and advances
  by what it returned; \<^verbatim>\<open>write(b)\<close> overwrites from the cursor on, extends the buffer
  where needed (filling a gap before the cursor with zero bytes) and advances by the
  length of \<open>b\<close>; \<^verbatim>\<open>seek(p)\<close> moves the cursor.
\<close>

record stream =
  buf :: bytes
  pos :: nat

definition stream_read :: "stream \<Rightarrow> nat \<Rightarrow> bytes \<times> stream" where
  "stream_read s n =
     (let b = take n (drop (pos s) (buf s))
      in (b, s\<lparr>pos := pos s + length b\<rparr>))"

definition stream_write :: "stream \<Rightarrow> bytes \<Rightarrow> nat \<times> stream" where
  "stream_write s b =
     (if b = [] then (0, s)
      else
        (let padded = buf s @ replicate (pos s - length (buf s)) 0
         in (length b,
             \<lparr>buf = take (pos s) padded @ b @ drop (pos s + length b) (buf s),
              pos = pos s + length b\<rparr>)))"

definition stream_seek :: "stream \<Rightarrow> nat \<Rightarrow> stream" where
  "stream_seek s p = s\<lparr>pos := p\<rparr>"

subsection \<open>Fixed-width layouts\<close>

text \<open>
  Modelled from the spec: the class \<^verbatim>\<open>Struct\<close> of the package
  \<^verbatim>\<open>serialization_tools.structx\<close> is not part of the repository.  The layouts are
  little-endian and fixed-width (spec, sections 4 and 6), described by a format string
  of Python's \<^verbatim>\<open>struct\<close> module with the prefix \<^verbatim>\<open><\<close> (little-endian, standard
  sizes, no padding between fields).  The format codes in use are \<^verbatim>\<open>B\<close> (unsigned,
  1 byte), \<^verbatim>\<open>I\<close> (unsigned, 4 bytes), \<^verbatim>\<open>Q\<close> (unsigned, 8 bytes) and \<^verbatim>\<open>ns\<close>
  (a byte string of exactly \<open>n\<close> bytes); a repeat count as in \<^verbatim>\<open>2I\<close> stands for that
  many fields.

  Packing raises \<^verbatim>\<open>struct.error\<close> when the number of arguments differs from the number
  of fields, when an integer field is given anything but an integer within its range,
  or when a byte-string field is given anything but \<^verbatim>\<open>bytes\<close>; a byte string longer
  than its field is cut to the width of the field, a shorter one is filled with zero
  bytes.  Unpacking needs a buffer of exactly the size of the layout.
  \<^verbatim>\<open>pack_stream\<close> writes the packed buffer to the stream and returns the number of bytes
  written; \<^verbatim>\<open>unpack_stream\<close> reads the size of the layout from the stream and unpacks
  what it read.
\<close>

datatype fmt = U8 | U32 | U64 | Bytes nat

type_synonym Struct = "fmt list"

fun fmt_size :: "fmt \<Rightarrow> nat" where
  "fmt_size U8 = 1"
| "fmt_size U32 = 4"
| "fmt_size U64 = 8"
| "fmt_size (Bytes n) = n"

definition Struct_size :: "Struct \<Rightarrow> nat" where
  "Struct_size layout = sum_list (map fmt_size layout)"

fun le_bytes :: "nat \<Rightarrow> int \<Rightarrow> bytes" where
  "le_bytes 0 v = []"
| "le_bytes (Suc n) v = word_of_int v # le_bytes n (v div 256)"

fun le_int :: "bytes \<Rightarrow> int" where
  "le_int [] = 0"
| "le_int (b # bs) = uint b + 256 * le_int bs"

definition pack_int :: "nat \<Rightarrow> pyval \<Rightarrow> error + bytes" where
  "pack_int n v =
     (case v of
        PyInt i \<Rightarrow> if 0 \<le> i \<and> i < 256 ^ n then Inr (le_bytes n i) else Inl StructError
      | _ \<Rightarrow> Inl StructError)"

definition pack_bytes :: "nat \<Rightarrow> pyval \<Rightarrow> error + bytes" where
  "pack_bytes n v =
     (case v of
        PyBytes b \<Rightarrow> Inr (take n b @ replicate (n - length b) 0)
      | _ \<Rightarrow> Inl StructError)"

fun pack_field :: "fmt \<Rightarrow> pyval \<Rightarrow> error + bytes" where
  "pack_field (Bytes n) v = pack_bytes n v"
| "pack_field f v = pack_int (fmt_size f) v"

fun Struct_pack :: "Struct \<Rightarrow> pyval list \<Rightarrow> error + bytes" where
  "Struct_pack [] [] = Inr []"
| "Struct_pack (f # fs) (v # vs) =
     (case pack_field f v of
        Inl e \<Rightarrow> Inl e
      | Inr b \<Rightarrow> (case Struct_pack fs vs of Inl e \<Rightarrow> Inl e | Inr bs \<Rightarrow> Inr (b @ bs)))"
| "Struct_pack _ _ = Inl StructError"

fun unpack_field :: "fmt \<Rightarrow> bytes \<Rightarrow> pyval" where
  "unpack_field (Bytes n) b = PyBytes b"
| "unpack_field f b = PyInt (le_int b)"

fun unpack_fields :: "Struct \<Rightarrow> bytes \<Rightarrow> pyval list" where
  "unpack_fields [] b = []"
| "unpack_fields (f # fs) b =
     unpack_field f (take (fmt_size f) b) # unpack_fields fs (drop (fmt_size f) b)"

definition Struct_unpack :: "Struct \<Rightarrow> bytes \<Rightarrow> error + pyval list" where
  "Struct_unpack layout b =
     (if length b \<noteq> Struct_size layout then Inl StructError
      else Inr (unpack_fields layout b))"

definition Struct_pack_stream :: "Struct \<Rightarrow> stream \<Rightarrow> pyval list \<Rightarrow> error + nat \<times> stream" where
  "Struct_pack_stream layout s args =
     (case Struct_pack layout args of
        Inl e \<Rightarrow> Inl e
      | Inr buffer \<Rightarrow> Inr (stream_write s buffer))"

definition Struct_unpack_stream :: "Struct \<Rightarrow> stream \<Rightarrow> error + pyval list \<times> stream" where
  "Struct_unpack_stream layout s =
     (case stream_read s (Struct_size layout) of
        (buffer, s') \<Rightarrow>
          (case Struct_unpack layout buffer of
             Inl e \<Rightarrow> Inl e
           | Inr vals \<Rightarrow> Inr (vals, s')))"

section \<open>The table-of-contents footer\<close>

text \<open>
  The fields of \<^verbatim>\<open>TocFooter\<close> are annotated \<^verbatim>\<open>int\<close>, and an annotation is not
  checked: \<^verbatim>\<open>unpack\<close> stores the three values of the layout and
  \<^verbatim>\<open>disassemble_meta\<close> the three entries of a dictionary, whatever objects they are.
  The fields therefore hold objects.
\<close>

record TocFooter =
  unk_a :: pyval
  unk_b :: pyval
  block_size :: pyval

text \<open>
  \<^verbatim>\<open>TocFooterSerializer\<close>.  The tuple assignment of \<^verbatim>\<open>unpack\<close> needs exactly three
  values.
\<close>

definition TocFooterSerializer_unpack :: "Struct \<Rightarrow> stream \<Rightarrow> error + TocFooter \<times> stream" where
  "TocFooterSerializer_unpack layout s =
     (case Struct_unpack_stream layout s of
        Inl e \<Rightarrow> Inl e
      | Inr (vals, s') \<Rightarrow>
          (case vals of
             [a, b, c] \<Rightarrow> Inr (\<lparr>unk_a = a, unk_b = b, block_size = c\<rparr>, s')
           | _ \<Rightarrow> Inl TupleValueError))"

definition TocFooterSerializer_pack :: "Struct \<Rightarrow> stream \<Rightarrow> TocFooter \<Rightarrow> error + nat \<times> stream" where
  "TocFooterSerializer_pack layout s v =
     Struct_pack_stream layout s [unk_a v, unk_b v, block_size v]"

text \<open>\<^verbatim>\<open>_toc_footer_layout = Struct("<3I")\<close>\<close>

definition toc_footer_layout :: Struct where
  "toc_footer_layout = [U32, U32, U32]"

section \<open>Archive pointers\<close>

text \<open>
  Modelled from the spec: the record \<^verbatim>\<open>ArchivePtrs\<close> is declared in
  \<^verbatim>\<open>relic.sga.core.serialization\<close>, outside the repository.  It holds four unsigned
  integers: header block position, header block size, data block position and data
  block size (spec, section 3), and its \<^verbatim>\<open>default()\<close> is the zeroed record.
\<close>

record ArchivePtrs =
  header_pos :: int
  header_size :: int
  data_pos :: int
  data_size :: int

definition ArchivePtrs_default :: ArchivePtrs where
  "ArchivePtrs_default = \<lparr>header_pos = 0, header_size = 0, data_pos = 0, data_size = 0\<rparr>"

section \<open>File definitions\<close>

text \<open>
  The enumerations \<^verbatim>\<open>StorageType\<close> and \<^verbatim>\<open>VerificationType\<close> are declared in
  \<^verbatim>\<open>relic.sga.core.definitions\<close>, outside the repository.  A member is modelled by
  its integer value, and the list of the member values of each enumeration is a
  parameter of every function that calls the enumeration.  Calling an enumeration on a
  value returns the member with that value and raises \<^verbatim>\<open>ValueError\<close> when there is none.
\<close>

definition Enum_call :: "string \<Rightarrow> int list \<Rightarrow> int \<Rightarrow> error + int" where
  "Enum_call enum_name members v =
     (if v \<in> set members then Inr v else Inl (EnumValueError enum_name (PyInt v)))"

definition StorageType :: "int list \<Rightarrow> int \<Rightarrow> error + int" where
  "StorageType members v = Enum_call ''StorageType'' members v"

definition VerificationType :: "int list \<Rightarrow> int \<Rightarrow> error + int" where
  "VerificationType members v = Enum_call ''VerificationType'' members v"

datatype EncryptionType = NONE | AES128

fun EncryptionType_value :: "EncryptionType \<Rightarrow> int" where
  "EncryptionType_value NONE = 0"
| "EncryptionType_value AES128 = 1"

definition EncryptionType_call :: "int \<Rightarrow> error + EncryptionType" where
  "EncryptionType_call v =
     (if v = 0 then Inr NONE
      else if v = 1 then Inr AES128
      else Inl (EnumValueError ''EncryptionType'' (PyInt v)))"

text \<open>
  \<^verbatim>\<open>FileDef\<close> extends the file definition of \<^verbatim>\<open>relic.sga.core.serialization\<close>, whose
  fields are the two positions, the two lengths and the storage type.  \<^verbatim>\<open>meta2def\<close>
  builds a \<^verbatim>\<open>FileDef\<close> with \<^verbatim>\<open>None\<close> in the positions and lengths, so these four are
  optional.  \<^verbatim>\<open>meta2def\<close> also stores the dictionary entries \<^verbatim>\<open>hash_pos\<close> and
  \<^verbatim>\<open>crc\<close> as they are (\<^verbatim>\<open>typing.cast\<close> does nothing at run time), so these two
  fields hold objects.
\<close>

record FileDef =
  name_pos :: "int option"
  data_pos :: "int option"
  length_on_disk :: "int option"
  length_in_archive :: "int option"
  storage_type :: int
  verification :: int
  encryption :: EncryptionType
  crc :: pyval
  hash_pos :: pyval

definition STORAGE_MASK :: int where "STORAGE_MASK = 0x0F"
definition ENCRYPTION_MASK :: int where "ENCRYPTION_MASK = 0xF0"
definition ENCRYPTION_SHIFT :: nat where "ENCRYPTION_SHIFT = 4"

fun opt_arg :: "int option \<Rightarrow> pyval" where
  "opt_arg None = PyNone"
| "opt_arg (Some i) = PyInt i"

text \<open>
  \<^verbatim>\<open>FileDefSerializer.unpack\<close>.  The three enumerations are called in the order of the
  source: storage type, encryption type, verification type.  A layout that delivers
  anything but eight integers is outside what the record can hold (\<open>TypeError\<close>).
\<close>

definition FileDefSerializer_unpack ::
  "int list \<Rightarrow> int list \<Rightarrow> Struct \<Rightarrow> stream \<Rightarrow> error + FileDef \<times> stream" where
  "FileDefSerializer_unpack storage_members verification_members layout s =
     (case Struct_unpack_stream layout s of
        Inl e \<Rightarrow> Inl e
      | Inr (vals, s') \<Rightarrow>
          (case vals of
             [PyInt name_rel_pos, PyInt hash_pos', PyInt data_rel_pos,
              PyInt length_in_archive', PyInt length_on_disk',
              PyInt verification_type_val, PyInt storage_and_encryption_flags, PyInt crc'] \<Rightarrow>
               (let storage_value = storage_and_encryption_flags AND STORAGE_MASK;
                    encryption_value =
                      drop_bit ENCRYPTION_SHIFT (storage_and_encryption_flags AND ENCRYPTION_MASK)
                in case StorageType storage_members storage_value of
                     Inl e \<Rightarrow> Inl e
                   | Inr storage_type' \<Rightarrow>
                       (case EncryptionType_call encryption_value of
                          Inl e \<Rightarrow> Inl e
                        | Inr encryption_type \<Rightarrow>
                            (case VerificationType verification_members verification_type_val of
                               Inl e \<Rightarrow> Inl e
                             | Inr verification_type \<Rightarrow>
                                 Inr (\<lparr>name_pos = Some name_rel_pos,
                                       data_pos = Some data_rel_pos,
                                       length_on_disk = Some length_on_disk',
                                       length_in_archive = Some length_in_archive',
                                       storage_type = storage_type',
                                       verification = verification_type,
                                       encryption = encryption_type,
                                       crc = PyInt crc',
                                       hash_pos = PyInt hash_pos'\<rparr>, s'))))
           | _ \<Rightarrow> Inl TypeError))"

definition storage_and_encryption_flags :: "FileDef \<Rightarrow> int" where
  "storage_and_encryption_flags v =
     push_bit ENCRYPTION_SHIFT (EncryptionType_value (encryption v)) OR storage_type v"

definition FileDefSerializer_pack :: "Struct \<Rightarrow> stream \<Rightarrow> FileDef \<Rightarrow> error + nat \<times> stream" where
  "FileDefSerializer_pack layout s v =
     Struct_pack_stream layout s
       [opt_arg (name_pos v),
        hash_pos v,
        opt_arg (data_pos v),
        opt_arg (length_in_archive v),
        opt_arg (length_on_disk v),
        PyInt (verification v),
        PyInt (storage_and_encryption_flags v),
        crc v]"

text \<open>\<^verbatim>\<open>_file_layout = Struct("<2I Q 2I 2B I")\<close>\<close>

definition file_layout :: Struct where
  "file_layout = [U32, U32, U64, U32, U32, U8, U8, U32]"

section \<open>The archive header\<close>

subsection \<open>The codec \<^verbatim>\<open>utf-16-le\<close>\<close>

text \<open>
  \<^verbatim>\<open>str.encode("utf-16-le")\<close> and \<^verbatim>\<open>bytes.decode("utf-16-le")\<close>, both with the
  default error handler \<^verbatim>\<open>strict\<close>.  A code point below \<open>0x10000\<close> is one 16-bit
  unit, written low byte first; a surrogate (\<open>0xD800\<close> to \<open>0xDFFF\<close>) on its own cannot
  be encoded.  A code point from \<open>0x10000\<close> on is a high surrogate followed by a low
  surrogate.  Decoding raises on an odd number of bytes, on a low surrogate that follows
  no high surrogate and on a high surrogate that no low surrogate follows.
\<close>

definition unit_bytes :: "nat \<Rightarrow> bytes" where
  "unit_bytes u = [of_nat (u mod 256), of_nat (u div 256)]"

definition is_surrogate :: "nat \<Rightarrow> bool" where
  "is_surrogate c \<longleftrightarrow> 0xD800 \<le> c \<and> c \<le> 0xDFFF"

definition encode_char :: "nat \<Rightarrow> error + bytes" where
  "encode_char c =
     (if c < 0x10000 then
        (if is_surrogate c then Inl UnicodeEncodeError else Inr (unit_bytes c))
      else if c < 0x110000 then
        Inr (unit_bytes (0xD800 + (c - 0x10000) div 0x400) @
             unit_bytes (0xDC00 + (c - 0x10000) mod 0x400))
      else Inl UnicodeEncodeError)"

fun utf_16_le_encode :: "pystr \<Rightarrow> error + bytes" where
  "utf_16_le_encode [] = Inr []"
| "utf_16_le_encode (c # cs) =
     (case encode_char c of
        Inl e \<Rightarrow> Inl e
      | Inr b \<Rightarrow> (case utf_16_le_encode cs of Inl e \<Rightarrow> Inl e | Inr bs \<Rightarrow> Inr (b @ bs)))"

definition unit_of :: "byte \<Rightarrow> byte \<Rightarrow> nat" where
  "unit_of b0 b1 = unat b0 + 256 * unat b1"

fun utf_16_le_decode :: "bytes \<Rightarrow> error + pystr" where
  "utf_16_le_decode [] = Inr []"
| "utf_16_le_decode [b] = Inl UnicodeDecodeError"
| "utf_16_le_decode (b0 # b1 # rest) =
     (if \<not> is_surrogate (unit_of b0 b1) then
        (case utf_16_le_decode rest of
           Inl e \<Rightarrow> Inl e
         | Inr cs \<Rightarrow> Inr (unit_of b0 b1 # cs))
      else if 0xDC00 \<le> unit_of b0 b1 then Inl UnicodeDecodeError
      else
        (case rest of
           b2 # b3 # rest' \<Rightarrow>
             (if 0xDC00 \<le> unit_of b2 b3 \<and> unit_of b2 b3 \<le> 0xDFFF then
                (case utf_16_le_decode rest' of
                   Inl e \<Rightarrow> Inl e
                 | Inr cs \<Rightarrow>
                     Inr ((0x10000 + (unit_of b0 b1 - 0xD800) * 0x400
                            + (unit_of b2 b3 - 0xDC00)) # cs))
              else Inl UnicodeDecodeError)
         | _ \<Rightarrow> Inl UnicodeDecodeError))"

text \<open>\<^verbatim>\<open>str.rstrip("\0")\<close>: the string without its trailing NUL characters.\<close>

definition rstrip_nul :: "pystr \<Rightarrow> pystr" where
  "rstrip_nul s = rev (dropWhile (\<lambda>c. c = 0) (rev s))"

text \<open>The code points and the bytes of an ASCII literal of the source.\<close>

definition str_lit :: "string \<Rightarrow> pystr" where
  "str_lit cs = map of_char cs"

definition bytes_lit :: "string \<Rightarrow> bytes" where
  "bytes_lit cs = map of_char cs"

subsection \<open>\<^verbatim>\<open>MetaBlock\<close> and \<^verbatim>\<open>ArchiveHeaderSerializer\<close>\<close>

text \<open>
  \<^verbatim>\<open>disassemble_meta\<close> builds a \<^verbatim>\<open>MetaBlock\<close> with \<^verbatim>\<open>None\<close> as name and as
  pointers, so these two fields are optional.
\<close>

record MetaBlock =
  name :: "pystr option"
  ptrs :: "ArchivePtrs option"
  sha_256 :: bytes

definition MetaBlock_default :: MetaBlock where
  "MetaBlock_default =
     (let default_sha256 = concat (replicate 16 (bytes_lit ''default hash.   ''))
      in \<lparr>name = Some (str_lit ''Default Meta Block''),
          ptrs = Some ArchivePtrs_default,
          sha_256 = default_sha256\<rparr>)"

definition RSV_0 :: int where "RSV_0 = 0"
definition RSV_1 :: int where "RSV_1 = 1"

text \<open>
  \<^verbatim>\<open>ArchiveHeaderSerializer.unpack\<close>: the name is decoded before the reserved fields
  are compared.  A layout that delivers anything but a byte string, six integers and a
  byte string is outside what the record can hold (\<open>TypeError\<close>).
\<close>

definition ArchiveHeaderSerializer_unpack :: "Struct \<Rightarrow> stream \<Rightarrow> error + MetaBlock \<times> stream" where
  "ArchiveHeaderSerializer_unpack layout s =
     (case Struct_unpack_stream layout s of
        Inl e \<Rightarrow> Inl e
      | Inr (vals, s') \<Rightarrow>
          (case vals of
             [PyBytes encoded_name, PyInt header_pos', PyInt header_size',
              PyInt data_pos', PyInt data_size', PyInt rsv_0, PyInt rsv_1, PyBytes sha] \<Rightarrow>
               (case utf_16_le_decode encoded_name of
                  Inl e \<Rightarrow> Inl e
                | Inr decoded \<Rightarrow>
                    (let name' = rstrip_nul decoded;
                         ptrs' = \<lparr>header_pos = header_pos', header_size = header_size',
                                  ArchivePtrs.data_pos = data_pos', data_size = data_size'\<rparr>
                     in if (rsv_0, rsv_1) \<noteq> (RSV_0, RSV_1) then
                          Inl (MismatchError ''Reserved Flags'' (rsv_0, rsv_1) (RSV_0, RSV_1))
                        else Inr (\<lparr>name = Some name', ptrs = Some ptrs', sha_256 = sha\<rparr>, s')))
           | _ \<Rightarrow> Inl TypeError))"

definition ArchiveHeaderSerializer_pack :: "Struct \<Rightarrow> stream \<Rightarrow> MetaBlock \<Rightarrow> error + nat \<times> stream" where
  "ArchiveHeaderSerializer_pack layout s v =
     (case name v of
        None \<Rightarrow> Inl AttributeError
      | Some n \<Rightarrow>
          (case utf_16_le_encode n of
             Inl e \<Rightarrow> Inl e
           | Inr encoded_name \<Rightarrow>
               (case ptrs v of
                  None \<Rightarrow> Inl AttributeError
                | Some p \<Rightarrow>
                    Struct_pack_stream layout s
                      [PyBytes encoded_name,
                       PyInt (header_pos p),
                       PyInt (header_size p),
                       PyInt (ArchivePtrs.data_pos p),
                       PyInt (data_size p),
                       PyInt RSV_0,
                       PyInt RSV_1,
                       PyBytes (sha_256 v)])))"

text \<open>\<^verbatim>\<open>_meta_header_layout = Struct("<128s QI QI 2I 256s")\<close>\<close>

definition meta_header_layout :: Struct where
  "meta_header_layout = [Bytes 128, U64, U32, U64, U32, U32, U32, Bytes 256]"

section \<open>Metadata dictionaries\<close>

text \<open>
  A \<^verbatim>\<open>Dict[str, object]\<close> is a map from keys to objects; subscripting with a key that
  is absent raises \<^verbatim>\<open>KeyError\<close>.
\<close>

type_synonym metadata = "string \<rightharpoonup> pyval"

definition getitem :: "metadata \<Rightarrow> string \<Rightarrow> error + pyval" where
  "getitem m k = (case m k of None \<Rightarrow> Inl (KeyError k) | Some v \<Rightarrow> Inr v)"

text \<open>
  \<^verbatim>\<open>typing.cast\<close> returns its argument unchanged and checks nothing.
\<close>

definition cast :: "pyval \<Rightarrow> pyval" where
  "cast v = v"

subsection \<open>\<^verbatim>\<open>bytes.hex\<close> and \<^verbatim>\<open>bytes.fromhex\<close>\<close>

text \<open>
  \<^verbatim>\<open>bytes.hex()\<close> writes two lowercase hexadecimal digits per byte.
  \<^verbatim>\<open>bytes.fromhex\<close> reads pairs of hexadecimal digits of either case, skips ASCII
  whitespace between pairs and raises \<^verbatim>\<open>ValueError\<close> on anything else.
\<close>

definition hex_digit :: "nat \<Rightarrow> nat" where
  "hex_digit d = (if d < 10 then 48 + d else 87 + d)"

fun bytes_hex :: "bytes \<Rightarrow> pystr" where
  "bytes_hex [] = []"
| "bytes_hex (b # bs) = hex_digit (unat b div 16) # hex_digit (unat b mod 16) # bytes_hex bs"

definition hex_value :: "nat \<Rightarrow> nat option" where
  "hex_value c =
     (if 48 \<le> c \<and> c \<le> 57 then Some (c - 48)
      else if 97 \<le> c \<and> c \<le> 102 then Some (c - 87)
      else if 65 \<le> c \<and> c \<le> 70 then Some (c - 55)
      else None)"

definition is_space :: "nat \<Rightarrow> bool" where
  "is_space c \<longleftrightarrow> c = 32 \<or> (9 \<le> c \<and> c \<le> 13)"

fun bytes_fromhex :: "pystr \<Rightarrow> error + bytes" where
  "bytes_fromhex [] = Inr []"
| "bytes_fromhex [c] = (if is_space c then Inr [] else Inl HexValueError)"
| "bytes_fromhex (c # d # cs) =
     (if is_space c then bytes_fromhex (d # cs)
      else
        (case (hex_value c, hex_value d) of
           (Some h, Some l) \<Rightarrow>
             (case bytes_fromhex cs of
                Inl e \<Rightarrow> Inl e
              | Inr bs \<Rightarrow> Inr (of_nat (16 * h + l) # bs))
         | _ \<Rightarrow> Inl HexValueError))"

definition fromhex :: "pyval \<Rightarrow> error + bytes" where
  "fromhex v = (case v of PyStr s \<Rightarrow> bytes_fromhex s | _ \<Rightarrow> Inl TypeError)"

subsection \<open>Archive metadata\<close>

definition assemble_meta :: "stream \<Rightarrow> MetaBlock \<Rightarrow> TocFooter \<Rightarrow> metadata" where
  "assemble_meta _ header footer =
     [''sha_256'' \<mapsto> PyStr (bytes_hex (sha_256 header)),
      ''unk_a'' \<mapsto> unk_a footer,
      ''unk_b'' \<mapsto> unk_b footer,
      ''block_size'' \<mapsto> block_size footer]"

definition disassemble_meta :: "stream \<Rightarrow> metadata \<Rightarrow> error + MetaBlock \<times> TocFooter" where
  "disassemble_meta _ metadata =
     (case getitem metadata ''sha_256'' of
        Inl e \<Rightarrow> Inl e
      | Inr h \<Rightarrow>
     (case fromhex (cast h) of
        Inl e \<Rightarrow> Inl e
      | Inr sha \<Rightarrow>
     (let meta = \<lparr>name = None, ptrs = None, sha_256 = sha\<rparr> in
     (case getitem metadata ''unk_a'' of
        Inl e \<Rightarrow> Inl e
      | Inr a \<Rightarrow>
     (case getitem metadata ''unk_b'' of
        Inl e \<Rightarrow> Inl e
      | Inr b \<Rightarrow>
     (case getitem metadata ''block_size'' of
        Inl e \<Rightarrow> Inl e
      | Inr c \<Rightarrow>
          Inr (meta, \<lparr>unk_a = cast a, unk_b = cast b, block_size = cast c\<rparr>)))))))"

subsection \<open>File metadata\<close>

text \<open>
  Calling an enumeration on an object that is no integer raises the same
  \<^verbatim>\<open>ValueError\<close> as calling it on an integer that is no member.
\<close>

definition Enum_call_obj :: "string \<Rightarrow> (int \<Rightarrow> error + 'a) \<Rightarrow> pyval \<Rightarrow> error + 'a" where
  "Enum_call_obj enum_name enum v =
     (case v of PyInt i \<Rightarrow> enum i | _ \<Rightarrow> Inl (EnumValueError enum_name v))"

definition meta2def :: "int list \<Rightarrow> int list \<Rightarrow> metadata \<Rightarrow> error + FileDef" where
  "meta2def storage_members verification_members meta =
     (case getitem meta ''verification_type'' of
        Inl e \<Rightarrow> Inl e
      | Inr v \<Rightarrow>
     (case Enum_call_obj ''VerificationType'' (VerificationType verification_members) (cast v) of
        Inl e \<Rightarrow> Inl e
      | Inr verification' \<Rightarrow>
     (case getitem meta ''encryption_type'' of
        Inl e \<Rightarrow> Inl e
      | Inr en \<Rightarrow>
     (case Enum_call_obj ''EncryptionType'' EncryptionType_call (cast en) of
        Inl e \<Rightarrow> Inl e
      | Inr encryption' \<Rightarrow>
     (case getitem meta ''storage_type'' of
        Inl e \<Rightarrow> Inl e
      | Inr st \<Rightarrow>
     (case Enum_call_obj ''StorageType'' (StorageType storage_members) (cast st) of
        Inl e \<Rightarrow> Inl e
      | Inr storage_type' \<Rightarrow>
     (case getitem meta ''hash_pos'' of
        Inl e \<Rightarrow> Inl e
      | Inr hp \<Rightarrow>
     (case getitem meta ''crc'' of
        Inl e \<Rightarrow> Inl e
      | Inr c \<Rightarrow>
          Inr \<lparr>name_pos = None,
               data_pos = None,
               length_on_disk = None,
               length_in_archive = None,
               storage_type = storage_type',
               verification = verification',
               encryption = encryption',
               crc = cast c,
               hash_pos = cast hp\<rparr>))))))))"

definition def2meta :: "FileDef \<Rightarrow> metadata" where
  "def2meta d =
     (let encryption' = EncryptionType_value (encryption d);
          verification' = verification d;
          storage_type' = storage_type d
      in [''storage_type'' \<mapsto> PyInt storage_type',
          ''verification_type'' \<mapsto> PyInt verification',
          ''encryption_type'' \<mapsto> PyInt encryption',
          ''hash_pos'' \<mapsto> hash_pos d,
          ''crc'' \<mapsto> crc d])"

section \<open>Notions used in the statements\<close>

subsection \<open>Records that fit their layout\<close>

text \<open>
  An integer fits an unsigned field of \<open>n\<close> bytes when it lies between 0 and \<open>256 ^ n - 1\<close>;
  an object fits when it is such an integer, an optional integer when it is set to one.
  A record is valid for its layout when packing loses nothing:
  \<^item> a footer, when its three integers fit their 4-byte fields;
  \<^item> a file definition, when its positions and lengths are set and fit their fields, its
    verification type is a member of \<^verbatim>\<open>VerificationType\<close> that fits one byte and its
    storage type is a member of \<^verbatim>\<open>StorageType\<close> that fits the low nibble;
  \<^item> a header, when its name is set, can be encoded, takes at most 128 bytes encoded and
    does not end in NUL, its pointers are set and fit their fields, and its hash is
    exactly 256 bytes long.
\<close>

definition fits :: "nat \<Rightarrow> int \<Rightarrow> bool" where
  "fits n i \<longleftrightarrow> 0 \<le> i \<and> i < 256 ^ n"

definition obj_fits :: "nat \<Rightarrow> pyval \<Rightarrow> bool" where
  "obj_fits n v \<longleftrightarrow> (case v of PyInt i \<Rightarrow> fits n i | _ \<Rightarrow> False)"

definition opt_fits :: "nat \<Rightarrow> int option \<Rightarrow> bool" where
  "opt_fits n x \<longleftrightarrow> (case x of None \<Rightarrow> False | Some i \<Rightarrow> fits n i)"

definition valid_TocFooter :: "TocFooter \<Rightarrow> bool" where
  "valid_TocFooter v \<longleftrightarrow>
     obj_fits 4 (unk_a v) \<and> obj_fits 4 (unk_b v) \<and> obj_fits 4 (block_size v)"

definition valid_FileDef :: "int list \<Rightarrow> int list \<Rightarrow> FileDef \<Rightarrow> bool" where
  "valid_FileDef storage_members verification_members d \<longleftrightarrow>
     opt_fits 4 (name_pos d) \<and> obj_fits 4 (hash_pos d) \<and> opt_fits 8 (data_pos d) \<and>
     opt_fits 4 (length_in_archive d) \<and> opt_fits 4 (length_on_disk d) \<and>
     verification d \<in> set verification_members \<and> fits 1 (verification d) \<and>
     storage_type d \<in> set storage_members \<and> 0 \<le> storage_type d \<and> storage_type d < 16 \<and>
     obj_fits 4 (crc d)"

definition ptrs_fit :: "ArchivePtrs \<Rightarrow> bool" where
  "ptrs_fit p \<longleftrightarrow> fits 8 (header_pos p) \<and> fits 4 (header_size p) \<and>
     fits 8 (ArchivePtrs.data_pos p) \<and> fits 4 (data_size p)"

definition valid_MetaBlock :: "MetaBlock \<Rightarrow> bool" where
  "valid_MetaBlock m \<longleftrightarrow>
     (case name m of
        None \<Rightarrow> False
      | Some s \<Rightarrow>
          (case utf_16_le_encode s of Inl _ \<Rightarrow> False | Inr e \<Rightarrow> length e \<le> 128) \<and>
          (s = [] \<or> last s \<noteq> 0)) \<and>
     (case ptrs m of None \<Rightarrow> False | Some p \<Rightarrow> ptrs_fit p) \<and>
     length (sha_256 m) = 256"

subsection \<open>The fields of a stored record\<close>

text \<open>
  What a layout stores for an argument: a byte string is stored cut or filled to the
  width of its field, an integer as it is.
\<close>

fun stored :: "fmt \<Rightarrow> pyval \<Rightarrow> pyval" where
  "stored (Bytes n) (PyBytes x) = PyBytes (take n x @ replicate (n - length x) 0)"
| "stored f v = v"

text \<open>
  The 416 bytes of a header at the cursor of a stream and the fields at their offsets
  (name 0, header position 128, header size 136, data position 140, data size 148,
  reserved 152 and 156, hash 160), and the bytes of the header with a given encoded
  name, pointers and hash.
\<close>

definition header_blob :: "stream \<Rightarrow> bytes" where
  "header_blob s = take 416 (drop (pos s) (buf s))"

definition name_field :: "bytes \<Rightarrow> bytes" where
  "name_field b = take 128 b"

definition ptrs_field :: "bytes \<Rightarrow> ArchivePtrs" where
  "ptrs_field b =
     \<lparr>header_pos = le_int (take 8 (drop 128 b)),
      header_size = le_int (take 4 (drop 136 b)),
      ArchivePtrs.data_pos = le_int (take 8 (drop 140 b)),
      data_size = le_int (take 4 (drop 148 b))\<rparr>"

definition reserved_fields :: "bytes \<Rightarrow> int \<times> int" where
  "reserved_fields b = (le_int (take 4 (drop 152 b)), le_int (take 4 (drop 156 b)))"

definition hash_field :: "bytes \<Rightarrow> bytes" where
  "hash_field b = take 256 (drop 160 b)"

definition header_bytes :: "bytes \<Rightarrow> ArchivePtrs \<Rightarrow> bytes \<Rightarrow> bytes" where
  "header_bytes e p h =
     (take 128 e @ replicate (128 - length e) 0) @
     le_bytes 8 (header_pos p) @ le_bytes 4 (header_size p) @
     le_bytes 8 (ArchivePtrs.data_pos p) @ le_bytes 4 (data_size p) @
     le_bytes 4 0 @ le_bytes 4 1 @
     (take 256 h @ replicate (256 - length h) 0)"

text \<open>
  The 30 bytes of a file definition at the cursor of a stream, with the verification
  byte at offset 24 and the flags byte at offset 25.
\<close>

definition file_blob :: "stream \<Rightarrow> bytes" where
  "file_blob s = take 30 (drop (pos s) (buf s))"

definition verification_field :: "bytes \<Rightarrow> int" where
  "verification_field b = le_int (take 1 (drop 24 b))"

definition flags_field :: "bytes \<Rightarrow> int" where
  "flags_field b = le_int (take 1 (drop 25 b))"

subsection \<open>Example values\<close>

text \<open>
  The scenario of the specification: a 30-byte buffer and the file definition it encodes;
  the same buffer with a storage nibble 7 and with an encryption nibble 3.
\<close>

definition scenario_bytes :: bytes where
  "scenario_bytes =
     [0x10, 0, 0, 0,  0x20, 0, 0, 0,  0, 0x10, 0, 0, 0, 0, 0, 0,  100, 0, 0, 0,  50, 0, 0, 0,
      1,  0x12,  0xEF, 0xBE, 0xAD, 0xDE]"

definition example_FileDef :: FileDef where
  "example_FileDef =
     \<lparr>name_pos = Some 0x10, data_pos = Some 0x1000, length_on_disk = Some 50,
      length_in_archive = Some 100, storage_type = 2, verification = 1,
      encryption = AES128, crc = PyInt 0xDEADBEEF, hash_pos = PyInt 0x20\<rparr>"

definition bad_storage_bytes :: bytes where
  "bad_storage_bytes = scenario_bytes[25 := 0x17]"

definition bad_encryption_bytes :: bytes where
  "bad_encryption_bytes = scenario_bytes[25 := 0x32]"

text \<open>
  Three headers: an empty name, zero pointers and a zero hash with the reserved fields
  0 and 1; the same with a name field that starts with a high surrogate followed by
  NUL; the same with the reserved fields 7 and 1.
\<close>

definition zero_header :: bytes where
  "zero_header = replicate 156 0 @ [1, 0, 0, 0] @ replicate 256 0"

definition bad_name_header :: bytes where
  "bad_name_header = [0, 0xD8, 0, 0] @ replicate 152 0 @ [1, 0, 0, 0] @ replicate 256 0"

definition wrong_reserved_header :: bytes where
  "wrong_reserved_header = replicate 152 0 @ [7, 0, 0, 0] @ [1, 0, 0, 0] @ replicate 256 0"

text \<open>
  The default header with a name of 65 letters A (130 bytes encoded); the same without
  pointers, and with a header size of \<^verbatim>\<open>2 ** 32\<close>, one more than its 32-bit field holds; the
  default header with a name of 63 letters A followed by U+1F600, whose surrogate pair
  lies across byte 128, the 130 bytes of that name and the 416 bytes that packing it
  writes.
\<close>

definition long_name_block :: MetaBlock where
  "long_name_block = MetaBlock_default\<lparr>name := Some (replicate 65 65)\<rparr>"

definition no_ptrs_block :: MetaBlock where
  "no_ptrs_block = long_name_block\<lparr>ptrs := None\<rparr>"

definition overflow_block :: MetaBlock where
  "overflow_block =
     long_name_block\<lparr>ptrs := Some (ArchivePtrs_default\<lparr>header_size := 2 ^ 32\<rparr>)\<rparr>"

definition split_pair_block :: MetaBlock where
  "split_pair_block = MetaBlock_default\<lparr>name := Some (replicate 63 65 @ [0x1F600])\<rparr>"

definition split_pair_name_bytes :: bytes where
  "split_pair_name_bytes = concat (replicate 63 [65, 0]) @ [0x3D, 0xD8, 0x00, 0xDE]"

definition split_pair_header :: bytes where
  "split_pair_header =
     header_bytes split_pair_name_bytes ArchivePtrs_default (sha_256 MetaBlock_default)"

text \<open>
  The default header with a hash of 32 bytes, the length of a SHA-256 digest, and the
  416 bytes that packing it writes; the default header with a hash of 300 bytes.
\<close>

definition default_name_bytes :: bytes where
  "default_name_bytes =
     [68, 0, 101, 0, 102, 0, 97, 0, 117, 0, 108, 0, 116, 0, 32, 0, 77, 0, 101, 0, 116, 0,
      97, 0, 32, 0, 66, 0, 108, 0, 111, 0, 99, 0, 107, 0]"

definition digest_block :: MetaBlock where
  "digest_block = MetaBlock_default\<lparr>sha_256 := replicate 32 7\<rparr>"

definition digest_header :: bytes where
  "digest_header = header_bytes default_name_bytes ArchivePtrs_default (replicate 32 7)"

definition oversize_block :: MetaBlock where
  "oversize_block = MetaBlock_default\<lparr>sha_256 := replicate 300 7\<rparr>"

section \<open>Lemmas\<close>

subsection \<open>Streams and little-endian integers\<close>

lemma stream_read_after_write:
  assumes "stream_write s b = (n, s')"
  shows "stream_read (stream_seek s' (pos s)) (length b) = (b, s')" and "n = length b"
proof -
  show "n = length b" using assms by (auto simp: stream_write_def Let_def split: if_splits)
  show "stream_read (stream_seek s' (pos s)) (length b) = (b, s')"
  proof (cases "b = []")
    case True
    then show ?thesis using assms by (simp add: stream_write_def stream_read_def stream_seek_def)
  next
    case False
    have len: "length (take (pos s) (buf s @ replicate (pos s - length (buf s)) 0)) = pos s"
      by simp
    from False assms have s': "s' = \<lparr>buf = take (pos s) (buf s @ replicate (pos s - length (buf s)) 0) @ b
                @ drop (pos s + length b) (buf s), pos = pos s + length b\<rparr>"
      by (auto simp: stream_write_def Let_def)
    have "drop (pos s) (buf s') = b @ drop (pos s + length b) (buf s)"
      unfolding s' using len by (simp del: take_append)
    then show ?thesis
      by (simp add: stream_read_def stream_seek_def Let_def s')
  qed
qed

lemma stream_write_fst: "fst (stream_write s b) = length b"
  by (simp add: stream_write_def Let_def)

lemma stream_written:
  assumes "stream_write s b = (n, s')"
  shows "take (length b) (drop (pos s) (buf s')) = b"
  using stream_read_after_write(1)[OF assms]
  by (simp add: stream_read_def stream_seek_def Let_def)

lemma length_le_bytes [simp]: "length (le_bytes n v) = n"
  by (induction n arbitrary: v) auto

lemma le_int_le_bytes: "0 \<le> v \<Longrightarrow> v < 256 ^ n \<Longrightarrow> le_int (le_bytes n v) = v"
proof (induction n arbitrary: v)
  case 0
  then show ?case by simp
next
  case (Suc n)
  have "v div 256 < 256 ^ n" using Suc.prems by (simp add: div_less_iff_less_mult mult.commute)
  moreover have "0 \<le> v div 256" using Suc.prems by simp
  ultimately have "le_int (le_bytes n (v div 256)) = v div 256" by (rule Suc.IH[rotated])
  moreover have "uint (word_of_int v :: byte) = v mod 256"
    by (simp add: uint_word_of_int)
  ultimately show ?case by simp
qed

lemma le_int_nonneg: "0 \<le> le_int b"
  by (induction b) auto

lemma le_int_bound: "le_int b < 256 ^ length b"
proof (induction b)
  case Nil
  then show ?case by simp
next
  case (Cons a b)
  have "uint a < 256" using uint_bounded[of a] by simp
  with Cons show ?case by simp
qed

lemma byte_256: "(256::byte) = 0"
  by (simp add: word_eq_iff_unsigned[where ?'a=int])

lemma le_bytes_le_int: "le_bytes (length b) (le_int b) = b"
proof (induction b)
  case Nil
  then show ?case by simp
next
  case (Cons a b)
  have a: "uint a < 256" "0 \<le> uint a" using uint_bounded[of a] by simp_all
  have "(uint a + 256 * le_int b) div 256 = le_int b" using a by simp
  moreover have "word_of_int (uint a + 256 * le_int b) = a"
    by (simp add: byte_256)
  ultimately show ?case using Cons by simp
qed

lemma le_int_zeros: "le_int (replicate n 0) = 0"
  by (induction n) simp_all

lemma le_bytes_numeral:
  "le_bytes (numeral k) v = word_of_int v # le_bytes (pred_numeral k) (v div 256)"
  by (simp add: numeral_eq_Suc)

lemma le_bytes_1: "le_bytes 1 v = [word_of_int v]"
  by simp

subsection \<open>Packing and unpacking a layout\<close>

lemma pack_field_length: "pack_field f v = Inr b \<Longrightarrow> length b = fmt_size f"
  by (cases f; cases v) (auto simp: pack_int_def pack_bytes_def split: if_splits)

lemma Struct_pack_stream_ok:
  "Struct_pack L args = Inr b \<Longrightarrow> \<exists>s'. Struct_pack_stream L s args = Inr (length b, s')"
  using stream_write_fst[of s b] by (cases "stream_write s b") (simp add: Struct_pack_stream_def)

lemma pack_int_Inr: "pack_int n v = Inr b \<Longrightarrow> v = PyInt (le_int b) \<and> length b = n"
  by (cases v) (auto simp: pack_int_def le_int_le_bytes split: if_splits)

lemma unpack_pack_field: "pack_field f v = Inr b \<Longrightarrow> unpack_field f b = stored f v"
proof (cases f)
  case (Bytes n)
  assume "pack_field f v = Inr b"
  with Bytes show ?thesis by (cases v) (auto simp: pack_bytes_def)
qed (auto dest: pack_int_Inr)

lemma Struct_pack_length: "Struct_pack L args = Inr b \<Longrightarrow> length b = Struct_size L"
proof (induction L args arbitrary: b rule: Struct_pack.induct)
  case (2 f fs v vs)
  then show ?case
    by (auto simp: Struct_size_def pack_field_length split: sum.splits)
qed (simp_all add: Struct_size_def)

lemma unpack_fields_pack:
  "Struct_pack L args = Inr b \<Longrightarrow> unpack_fields L b = map2 stored L args"
proof (induction L args arbitrary: b rule: Struct_pack.induct)
  case (2 f fs v vs)
  then show ?case
    by (auto simp: pack_field_length unpack_pack_field split: sum.splits)
qed simp_all

lemma Struct_unpack_pack:
  "Struct_pack L args = Inr b \<Longrightarrow> Struct_unpack L b = Inr (map2 stored L args)"
  by (simp add: Struct_unpack_def Struct_pack_length unpack_fields_pack)

lemma Struct_stream_roundtrip:
  assumes "Struct_pack_stream L s args = Inr (n, s')"
  shows "Struct_unpack_stream L (stream_seek s' (pos s)) = Inr (map2 stored L args, s')"
    and "n = Struct_size L"
proof -
  from assms obtain b where b: "Struct_pack L args = Inr b" and w: "stream_write s b = (n, s')"
    by (auto simp: Struct_pack_stream_def split: sum.splits)
  have len: "length b = Struct_size L" using b by (rule Struct_pack_length)
  show "n = Struct_size L" using stream_read_after_write(2)[OF w] len by simp
  show "Struct_unpack_stream L (stream_seek s' (pos s)) = Inr (map2 stored L args, s')"
    using stream_read_after_write(1)[OF w] Struct_unpack_pack[OF b]
    by (simp add: Struct_unpack_stream_def len)
qed

lemma pack_int_fits: "fits n i \<Longrightarrow> pack_int n (PyInt i) = Inr (le_bytes n i)"
  by (simp add: pack_int_def fits_def)

subsection \<open>The codec \<^verbatim>\<open>utf-16-le\<close>\<close>

lemma unit_of_unit_bytes:
  assumes "u < 65536"
  shows "unit_bytes u = [b0, b1] \<Longrightarrow> unit_of b0 b1 = u"
proof -
  assume "unit_bytes u = [b0, b1]"
  then have "b0 = of_nat (u mod 256)" "b1 = of_nat (u div 256)"
    by (simp_all add: unit_bytes_def)
  moreover have "u div 256 < 256" using assms by simp
  ultimately show ?thesis
    by (simp add: unit_of_def unat_of_nat)
qed

lemma unit_bytes_unit_of: "unit_bytes (unit_of b0 b1) = [b0, b1]"
proof -
  have b: "unat b0 < 256" "unat b1 < 256"
    using unsigned_less[of b0, where ?'a = nat] unsigned_less[of b1, where ?'a = nat] by simp_all
  then have "(unat b0 + 256 * unat b1) mod 256 = unat b0"
    "(unat b0 + 256 * unat b1) div 256 = unat b1" by simp_all
  then show ?thesis by (simp add: unit_bytes_def unit_of_def)
qed

lemma unit_of_bound: "unit_of b0 b1 < 65536"
proof -
  have b: "unat b0 < 256" "unat b1 < 256"
    using unsigned_less[of b0, where ?'a = nat] unsigned_less[of b1, where ?'a = nat] by simp_all
  then show ?thesis by (simp add: unit_of_def)
qed

lemma decode_encode_char:
  assumes "encode_char c = Inr b"
  shows "utf_16_le_decode (b @ rest) =
     (case utf_16_le_decode rest of Inl e \<Rightarrow> Inl e | Inr cs \<Rightarrow> Inr (c # cs))"
proof (cases "c < 0x10000")
  case True
  with assms have ns: "\<not> is_surrogate c" and b: "b = unit_bytes c"
    by (auto simp: encode_char_def split: if_splits)
  obtain b0 b1 where bb: "unit_bytes c = [b0, b1]" by (simp add: unit_bytes_def)
  have u: "unit_of b0 b1 = c" using unit_of_unit_bytes[OF _ bb] True by simp
  show ?thesis using ns by (simp add: b bb u split: sum.splits)
next
  case False
  with assms have c: "c < 0x110000"
    and b: "b = unit_bytes (0xD800 + (c - 0x10000) div 0x400) @
             unit_bytes (0xDC00 + (c - 0x10000) mod 0x400)"
    by (auto simp: encode_char_def split: if_splits)
  define v where "v = c - 0x10000"
  have v: "v < 0x100000" "c = 0x10000 + v" using c False by (simp_all add: v_def)
  define hi where "hi = 0xD800 + v div 0x400"
  define lo where "lo = 0xDC00 + v mod 0x400"
  have hi: "0xD800 \<le> hi" "hi < 0xDC00" using v by (simp_all add: hi_def)
  have lo: "0xDC00 \<le> lo" "lo \<le> 0xDFFF" by (simp_all add: lo_def)
  obtain b0 b1 where h: "unit_bytes hi = [b0, b1]" by (simp add: unit_bytes_def)
  obtain b2 b3 where l: "unit_bytes lo = [b2, b3]" by (simp add: unit_bytes_def)
  have uh: "unit_of b0 b1 = hi" using unit_of_unit_bytes[OF _ h] hi by simp
  have ul: "unit_of b2 b3 = lo" using unit_of_unit_bytes[OF _ l] lo by simp
  have "0x10000 + (hi - 0xD800) * 0x400 + (lo - 0xDC00) = c"
    by (simp add: hi_def lo_def v(2))
  then show ?thesis using hi lo
    by (simp add: b v_def[symmetric] hi_def[symmetric] lo_def[symmetric] h l uh ul is_surrogate_def
        split: sum.splits)
qed

lemma decode_encode_append:
  "utf_16_le_encode s = Inr e \<Longrightarrow>
   utf_16_le_decode (e @ rest) =
     (case utf_16_le_decode rest of Inl x \<Rightarrow> Inl x | Inr cs \<Rightarrow> Inr (s @ cs))"
proof (induction s arbitrary: e)
  case Nil
  then show ?case by (simp split: sum.splits)
next
  case (Cons c s)
  then obtain b bs where b: "encode_char c = Inr b" and bs: "utf_16_le_encode s = Inr bs"
    and e: "e = b @ bs"
    by (auto split: sum.splits)
  show ?case
    by (simp add: e decode_encode_char[OF b] Cons.IH[OF bs] split: sum.splits)
qed

lemma decode_zeros: "utf_16_le_decode (replicate (2 * k) 0) = Inr (replicate k 0)"
  by (induction k) (simp_all add: unit_of_def is_surrogate_def)

lemma encode_char_length: "encode_char c = Inr b \<Longrightarrow> length b = 2 \<or> length b = 4"
  by (auto simp: encode_char_def unit_bytes_def split: if_splits)

lemma encode_even: "utf_16_le_encode s = Inr e \<Longrightarrow> even (length e)"
proof (induction s arbitrary: e)
  case (Cons c s)
  then show ?case by (auto split: sum.splits dest!: encode_char_length)
qed simp

lemma encode_append:
  "utf_16_le_encode (s @ t) =
     (case utf_16_le_encode s of Inl x \<Rightarrow> Inl x
      | Inr a \<Rightarrow> (case utf_16_le_encode t of Inl x \<Rightarrow> Inl x | Inr b \<Rightarrow> Inr (a @ b)))"
  by (induction s) (simp_all split: sum.splits)

lemma encode_decode:
  "utf_16_le_decode b = Inr s \<Longrightarrow> utf_16_le_encode s = Inr b"
proof (induction b arbitrary: s rule: utf_16_le_decode.induct)
  case 1
  then show ?case by simp
next
  case (2 b)
  then show ?case by simp
next
  case (3 b0 b1 rest)
  show ?case
  proof (cases "is_surrogate (unit_of b0 b1)")
    case False
    with 3(3) obtain cs where cs: "utf_16_le_decode rest = Inr cs" and s: "s = unit_of b0 b1 # cs"
      by (auto split: sum.splits)
    have "encode_char (unit_of b0 b1) = Inr [b0, b1]"
      using False unit_of_bound[of b0 b1] by (simp add: encode_char_def unit_bytes_unit_of)
    with 3(1)[OF False cs] show ?thesis by (simp add: s)
  next
    case True
    with 3(3) obtain b2 b3 rest' cs where r: "rest = b2 # b3 # rest'"
      and hi: "unit_of b0 b1 < 0xDC00" and lo: "0xDC00 \<le> unit_of b2 b3" "unit_of b2 b3 \<le> 0xDFFF"
      and cs: "utf_16_le_decode rest' = Inr cs"
      and s: "s = (0x10000 + (unit_of b0 b1 - 0xD800) * 0x400 + (unit_of b2 b3 - 0xDC00)) # cs"
      by (auto split: sum.splits list.splits if_splits)
    define h where "h = unit_of b0 b1 - 0xD800"
    define l where "l = unit_of b2 b3 - 0xDC00"
    have h: "h < 0x400" "unit_of b0 b1 = 0xD800 + h" using hi True by (simp_all add: h_def is_surrogate_def)
    have l: "l < 0x400" "unit_of b2 b3 = 0xDC00 + l" using lo by (simp_all add: l_def)
    have "encode_char (0x10000 + h * 0x400 + l) = Inr (unit_bytes (0xD800 + h) @ unit_bytes (0xDC00 + l))"
      using h(1) l(1) by (simp add: encode_char_def)
    then have "encode_char (0x10000 + h * 0x400 + l) = Inr [b0, b1, b2, b3]"
      using unit_bytes_unit_of[of b0 b1] unit_bytes_unit_of[of b2 b3] by (simp add: h(2) l(2))
    moreover have "utf_16_le_encode cs = Inr rest'"
      using 3(2)[OF _ _ r refl _ cs] True hi lo by simp
    ultimately show ?thesis by (simp add: s r h_def l_def)
  qed
qed

lemma encode_zeros: "utf_16_le_encode (replicate k 0) = Inr (replicate (2 * k) 0)"
  by (induction k) (simp_all add: encode_char_def is_surrogate_def unit_bytes_def)

lemma encode_As: "utf_16_le_encode (replicate k 65) = Inr (concat (replicate k [65, 0]))"
  by (induction k) (simp_all add: encode_char_def is_surrogate_def unit_bytes_def)

lemma decode_lone_high_surrogate:
  "utf_16_le_decode (0 # 0xD8 # 0 # 0 # rest) = Inl UnicodeDecodeError"
  by (simp add: unit_of_def is_surrogate_def)

lemma decode_128_zeros: "utf_16_le_decode (replicate 128 0) = Inr (replicate 64 0)"
  using decode_zeros[of 64] by simp

subsection \<open>Trailing NUL characters\<close>

lemma dropWhile_replicate_append: "dropWhile (\<lambda>c. c = x) (replicate k x @ ys) = dropWhile (\<lambda>c. c = x) ys"
  by (induction k) simp_all

lemma rstrip_nul_append_zeros: "rstrip_nul (s @ replicate k 0) = rstrip_nul s"
  by (simp add: rstrip_nul_def dropWhile_replicate_append)

lemma rstrip_nul_id: "s = [] \<or> last s \<noteq> 0 \<Longrightarrow> rstrip_nul s = s"
proof (cases "s = []")
  case True
  then show ?thesis by (simp add: rstrip_nul_def)
next
  case False
  assume "s = [] \<or> last s \<noteq> 0"
  with False have "hd (rev s) \<noteq> 0" by (simp add: hd_rev)
  moreover from False obtain y ys where "rev s = y # ys" by (cases "rev s") auto
  ultimately have "dropWhile (\<lambda>c. c = 0) (rev s) = rev s" by simp
  then show ?thesis by (simp add: rstrip_nul_def)
qed

lemma rstrip_nul_last: "rstrip_nul s = [] \<or> last (rstrip_nul s) \<noteq> 0"
proof (cases "dropWhile (\<lambda>c. c = 0) (rev s) = []")
  case True
  then show ?thesis by (simp add: rstrip_nul_def)
next
  case False
  from hd_dropWhile[OF False] show ?thesis
    using False by (simp add: rstrip_nul_def last_rev)
qed

lemma takeWhile_eq_replicate: "takeWhile (\<lambda>c. c = x) ys = replicate (length (takeWhile (\<lambda>c. c = x) ys)) x"
  by (induction ys) simp_all

lemma rstrip_nul_decomp: "\<exists>k. t = rstrip_nul t @ replicate k 0"
proof -
  let ?P = "\<lambda>c::nat. c = 0"
  have "rev t = takeWhile ?P (rev t) @ dropWhile ?P (rev t)" by simp
  then have "t = rev (dropWhile ?P (rev t)) @ rev (takeWhile ?P (rev t))"
    by (metis rev_append rev_rev_ident)
  moreover have "rev (takeWhile ?P (rev t)) = replicate (length (takeWhile ?P (rev t))) 0"
    using takeWhile_eq_replicate[of 0 "rev t"] by (metis rev_replicate)
  ultimately show ?thesis unfolding rstrip_nul_def by metis
qed

lemma rstrip_nul_zeros: "rstrip_nul (replicate k 0) = []"
  using rstrip_nul_append_zeros[of "[]" k] by (simp add: rstrip_nul_def)

subsection \<open>Hexadecimal strings\<close>

lemma hex_digit_value: "d < 16 \<Longrightarrow> hex_value (hex_digit d) = Some d"
  by (auto simp: hex_value_def hex_digit_def)

lemma hex_digit_no_space: "d < 16 \<Longrightarrow> \<not> is_space (hex_digit d)"
  by (auto simp: is_space_def hex_digit_def)

lemma byte_of_nibbles: "of_nat (16 * (unat b div 16) + unat b mod 16) = (b::byte)"
  by simp

lemma fromhex_hex: "bytes_fromhex (bytes_hex b) = Inr b"
proof (induction b)
  case Nil
  then show ?case by simp
next
  case (Cons a b)
  have "unat a < 256" using unsigned_less[of a, where ?'a = nat] by simp
  then have hi: "unat a div 16 < 16" by simp
  have lo: "unat a mod 16 < 16" by simp
  show ?case
    using Cons byte_of_nibbles[of a]
    by (simp add: hex_digit_value[OF hi] hex_digit_value[OF lo] hex_digit_no_space[OF hi])
qed

subsection \<open>Footers\<close>

lemma obj_fitsE: "obj_fits n v \<Longrightarrow> \<exists>i. v = PyInt i \<and> fits n i"
  by (cases v) (auto simp: obj_fits_def)

lemma TocFooter_pack_ok:
  assumes "valid_TocFooter v"
  shows "\<exists>s'. TocFooterSerializer_pack toc_footer_layout s v = Inr (12, s')"
proof -
  from assms obtain a b c where v: "unk_a v = PyInt a" "unk_b v = PyInt b" "block_size v = PyInt c"
    and f: "fits 4 a" "fits 4 b" "fits 4 c"
    unfolding valid_TocFooter_def by (auto dest!: obj_fitsE)
  have "Struct_pack toc_footer_layout [unk_a v, unk_b v, block_size v]
      = Inr (le_bytes 4 a @ le_bytes 4 b @ le_bytes 4 c)"
    using f by (simp add: v toc_footer_layout_def pack_int_fits)
  from Struct_pack_stream_ok[OF this, of s] show ?thesis
    by (simp add: TocFooterSerializer_pack_def)
qed

lemma TocFooter_unpack_pack:
  assumes "TocFooterSerializer_pack toc_footer_layout s v = Inr (n, s')"
  shows "TocFooterSerializer_unpack toc_footer_layout (stream_seek s' (pos s)) = Inr (v, s')"
  using Struct_stream_roundtrip(1)[OF assms[unfolded TocFooterSerializer_pack_def]]
  by (simp add: TocFooterSerializer_unpack_def toc_footer_layout_def)

lemma valid_example_TocFooter:
  "valid_TocFooter \<lparr>unk_a = PyInt 1, unk_b = PyInt 2, block_size = PyInt 4096\<rparr>"
  by (simp add: valid_TocFooter_def obj_fits_def fits_def)

subsection \<open>File definitions\<close>

lemma nibble_cases:
  assumes "0 \<le> (st::int)" "st < 16"
  shows "st \<in> {0,1,2,3,4,5,6,7,8,9,10,11,12,13,14,15}"
  using assms by simp presburger

lemma flags_split:
  assumes "0 \<le> st" "st < 16"
  shows "(push_bit 4 (EncryptionType_value e) OR st) AND 15 = st"
    and "drop_bit 4 ((push_bit 4 (EncryptionType_value e) OR st) AND 240) = EncryptionType_value e"
    and "0 \<le> push_bit 4 (EncryptionType_value e) OR st"
    and "push_bit 4 (EncryptionType_value e) OR st < 256"
  using nibble_cases[OF assms] by (cases e; auto)+

lemma EncryptionType_call_value: "EncryptionType_call (EncryptionType_value e) = Inr e"
  by (cases e) (simp_all add: EncryptionType_call_def)

lemma opt_fitsE: "opt_fits n x \<Longrightarrow> \<exists>i. x = Some i \<and> fits n i"
  by (cases x) (auto simp: opt_fits_def)

lemma FileDef_Struct_pack:
  assumes "valid_FileDef ST VT d"
  shows "\<exists>b. Struct_pack file_layout
       [opt_arg (name_pos d), hash_pos d, opt_arg (data_pos d),
        opt_arg (length_in_archive d), opt_arg (length_on_disk d),
        PyInt (verification d), PyInt (storage_and_encryption_flags d), crc d]
     = Inr b \<and> length b = 30"
proof -
  from assms obtain a b c e h k where
    o: "name_pos d = Some a" "data_pos d = Some b" "length_in_archive d = Some c"
      "length_on_disk d = Some e" "hash_pos d = PyInt h" "crc d = PyInt k"
    and f: "fits 4 a" "fits 8 b" "fits 4 c" "fits 4 e" "fits 4 h" "fits 4 k"
    unfolding valid_FileDef_def by (auto dest!: opt_fitsE obj_fitsE)
  have fl: "fits 1 (storage_and_encryption_flags d)"
    using assms flags_split(3,4)[of "storage_type d" "encryption d"]
    by (simp add: valid_FileDef_def fits_def storage_and_encryption_flags_def ENCRYPTION_SHIFT_def)
  have "Struct_pack file_layout
       [opt_arg (name_pos d), hash_pos d, opt_arg (data_pos d),
        opt_arg (length_in_archive d), opt_arg (length_on_disk d),
        PyInt (verification d), PyInt (storage_and_encryption_flags d), crc d]
     = Inr (le_bytes 4 a @ le_bytes 4 h @ le_bytes 8 b @ le_bytes 4 c @ le_bytes 4 e @
            le_bytes 1 (verification d) @ le_bytes 1 (storage_and_encryption_flags d) @
            le_bytes 4 k)"
    using assms o f fl
    by (simp add: valid_FileDef_def file_layout_def pack_int_fits del: le_bytes.simps)
  then show ?thesis by simp
qed

lemma FileDef_pack_ok:
  assumes "valid_FileDef ST VT d"
  shows "\<exists>s'. FileDefSerializer_pack file_layout s d = Inr (30, s')"
proof -
  from FileDef_Struct_pack[OF assms] obtain b where
    b: "Struct_pack file_layout
       [opt_arg (name_pos d), hash_pos d, opt_arg (data_pos d),
        opt_arg (length_in_archive d), opt_arg (length_on_disk d),
        PyInt (verification d), PyInt (storage_and_encryption_flags d), crc d] = Inr b"
    and l: "length b = 30" by blast
  from Struct_pack_stream_ok[OF b, of s] show ?thesis
    by (simp add: FileDefSerializer_pack_def l)
qed

lemma FileDef_unpack_pack:
  assumes "valid_FileDef ST VT d"
    and "FileDefSerializer_pack file_layout s d = Inr (n, s')"
  shows "FileDefSerializer_unpack ST VT file_layout (stream_seek s' (pos s)) = Inr (d, s')"
proof -
  from assms(1) obtain a b c e h k where
    o: "name_pos d = Some a" "data_pos d = Some b" "length_in_archive d = Some c"
      "length_on_disk d = Some e" "hash_pos d = PyInt h" "crc d = PyInt k"
    unfolding valid_FileDef_def by (auto dest!: opt_fitsE obj_fitsE)
  have st: "0 \<le> storage_type d" "storage_type d < 16" "storage_type d \<in> set ST"
       "verification d \<in> set VT"
    using assms(1) by (simp_all add: valid_FileDef_def)
  have d: "\<lparr>name_pos = Some a, data_pos = Some b, length_on_disk = Some e,
            length_in_archive = Some c, storage_type = storage_type d,
            verification = verification d, encryption = encryption d, crc = PyInt k,
            hash_pos = PyInt h\<rparr> = d"
    using o by simp
  show ?thesis
    using Struct_stream_roundtrip(1)[OF assms(2)[unfolded FileDefSerializer_pack_def]]
      flags_split(1,2)[OF st(1,2), of "encryption d"] st(3,4) o
    by (simp add: FileDefSerializer_unpack_def file_layout_def storage_and_encryption_flags_def
        STORAGE_MASK_def ENCRYPTION_MASK_def ENCRYPTION_SHIFT_def StorageType_def
        VerificationType_def Enum_call_def EncryptionType_call_value d)
qed

lemma unpack_fields_file:
  "unpack_fields file_layout b =
     [PyInt (le_int (take 4 b)), PyInt (le_int (take 4 (drop 4 b))),
      PyInt (le_int (take 8 (drop 8 b))), PyInt (le_int (take 4 (drop 16 b))),
      PyInt (le_int (take 4 (drop 20 b))), PyInt (verification_field b),
      PyInt (flags_field b), PyInt (le_int (take 4 (drop 26 b)))]"
  by (simp add: file_layout_def verification_field_def flags_field_def)

lemma Struct_size_file: "Struct_size file_layout = 30"
  by (simp add: Struct_size_def file_layout_def)

lemma FileDef_unpack_cases:
  "FileDefSerializer_unpack storage_members verification_members file_layout s =
     (if length (file_blob s) \<noteq> 30 then Inl StructError
      else
        (case StorageType storage_members (flags_field (file_blob s) AND 0x0F) of
           Inl e \<Rightarrow> Inl e
         | Inr st \<Rightarrow>
             (case EncryptionType_call (drop_bit 4 (flags_field (file_blob s) AND 0xF0)) of
                Inl e \<Rightarrow> Inl e
              | Inr en \<Rightarrow>
                  (case VerificationType verification_members (verification_field (file_blob s)) of
                     Inl e \<Rightarrow> Inl e
                   | Inr v \<Rightarrow>
                       Inr (\<lparr>name_pos = Some (le_int (take 4 (file_blob s))),
                             data_pos = Some (le_int (take 8 (drop 8 (file_blob s)))),
                             length_on_disk = Some (le_int (take 4 (drop 20 (file_blob s)))),
                             length_in_archive = Some (le_int (take 4 (drop 16 (file_blob s)))),
                             storage_type = st, verification = v, encryption = en,
                             crc = PyInt (le_int (take 4 (drop 26 (file_blob s)))),
                             hash_pos = PyInt (le_int (take 4 (drop 4 (file_blob s))))\<rparr>,
                            s\<lparr>pos := pos s + 30\<rparr>)))))"
proof -
  have r: "stream_read s 30 = (file_blob s, s\<lparr>pos := pos s + length (file_blob s)\<rparr>)"
    by (simp add: stream_read_def file_blob_def Let_def)
  show ?thesis
  proof (cases "length (file_blob s) = 30")
    case False
    then have "Struct_unpack file_layout (file_blob s) = Inl StructError"
      by (simp add: Struct_unpack_def Struct_size_file)
    then show ?thesis using False
      by (simp add: FileDefSerializer_unpack_def Struct_unpack_stream_def Struct_size_file r)
  next
    case True
    then have "Struct_unpack file_layout (file_blob s) = Inr (unpack_fields file_layout (file_blob s))"
      by (simp add: Struct_unpack_def Struct_size_file)
    then show ?thesis using True
      by (simp add: FileDefSerializer_unpack_def Struct_unpack_stream_def Struct_size_file r
          unpack_fields_file STORAGE_MASK_def ENCRYPTION_MASK_def ENCRYPTION_SHIFT_def Let_def
          split: sum.splits)
  qed
qed

lemma FileDef_written_flags:
  assumes "FileDefSerializer_pack file_layout s v = Inr (n, s')"
  shows "flags_field (file_blob (stream_seek s' (pos s))) = storage_and_encryption_flags v"
proof -
  let ?args = "[opt_arg (name_pos v), hash_pos v, opt_arg (data_pos v),
        opt_arg (length_in_archive v), opt_arg (length_on_disk v),
        PyInt (verification v), PyInt (storage_and_encryption_flags v), crc v]"
  from assms obtain b where b: "Struct_pack file_layout ?args = Inr b"
    and w: "stream_write s b = (n, s')"
    by (auto simp: FileDefSerializer_pack_def Struct_pack_stream_def split: sum.splits)
  have len: "length b = 30" using Struct_pack_length[OF b] by (simp add: Struct_size_file)
  have blob: "file_blob (stream_seek s' (pos s)) = b"
    using stream_written[OF w] by (simp add: file_blob_def stream_seek_def len)
  have "unpack_fields file_layout b = map2 stored file_layout ?args"
    by (rule unpack_fields_pack[OF b])
  moreover have "map2 stored file_layout ?args ! 6 = PyInt (storage_and_encryption_flags v)"
    by (simp add: file_layout_def)
  moreover have "unpack_fields file_layout b ! 6 = PyInt (flags_field b)"
    by (simp only: unpack_fields_file) simp
  ultimately show ?thesis by (simp add: blob)
qed

lemma valid_example_FileDef: "valid_FileDef [0, 1, 2] [0, 1, 2, 3, 4] example_FileDef"
  by (simp add: valid_FileDef_def example_FileDef_def opt_fits_def obj_fits_def fits_def)

lemma scenario_blob: "file_blob \<lparr>buf = scenario_bytes, pos = 0\<rparr> = scenario_bytes"
  by (simp add: file_blob_def scenario_bytes_def)

lemma scenario_fields:
  "flags_field scenario_bytes = 0x12"
  "verification_field scenario_bytes = 1"
  "le_int (take 4 scenario_bytes) = 0x10"
  "le_int (take 4 (drop 4 scenario_bytes)) = 0x20"
  "le_int (take 8 (drop 8 scenario_bytes)) = 0x1000"
  "le_int (take 4 (drop 16 scenario_bytes)) = 100"
  "le_int (take 4 (drop 20 scenario_bytes)) = 50"
  "le_int (take 4 (drop 26 scenario_bytes)) = 0xDEADBEEF"
  "le_int (drop 26 scenario_bytes) = 0xDEADBEEF"
  by (simp_all add: flags_field_def verification_field_def scenario_bytes_def)

lemma scenario_unpack:
  assumes "2 \<in> set storage_members" "1 \<in> set verification_members"
  shows "FileDefSerializer_unpack storage_members verification_members file_layout
           \<lparr>buf = scenario_bytes, pos = 0\<rparr> =
         Inr (example_FileDef, \<lparr>buf = scenario_bytes, pos = 30\<rparr>)"
proof -
  have "length scenario_bytes = 30" by (simp add: scenario_bytes_def)
  moreover have "(0x12::int) AND 0x0F = 2" "drop_bit 4 ((0x12::int) AND 0xF0) = 1" by simp_all
  ultimately show ?thesis using assms
    by (simp add: FileDef_unpack_cases scenario_blob scenario_fields StorageType_def
        VerificationType_def Enum_call_def EncryptionType_call_def example_FileDef_def)
qed

lemma scenario_pack:
  "FileDefSerializer_pack file_layout \<lparr>buf = [], pos = 0\<rparr> example_FileDef =
     Inr (30, \<lparr>buf = scenario_bytes, pos = 30\<rparr>)"
proof -
  have f: "storage_and_encryption_flags example_FileDef = 0x12"
    by (simp add: storage_and_encryption_flags_def example_FileDef_def ENCRYPTION_SHIFT_def)
  have "Struct_pack file_layout
       [opt_arg (name_pos example_FileDef), hash_pos example_FileDef,
        opt_arg (data_pos example_FileDef), opt_arg (length_in_archive example_FileDef),
        opt_arg (length_on_disk example_FileDef), PyInt (verification example_FileDef),
        PyInt (storage_and_encryption_flags example_FileDef), crc example_FileDef]
      = Inr scenario_bytes"
    unfolding f
    by (simp add: example_FileDef_def file_layout_def pack_int_def le_bytes_numeral
        scenario_bytes_def)
  then show ?thesis
    by (simp add: FileDefSerializer_pack_def Struct_pack_stream_def stream_write_def Let_def
        scenario_bytes_def)
qed

lemma bad_bytes_fields:
  "file_blob \<lparr>buf = bad_storage_bytes, pos = 0\<rparr> = bad_storage_bytes"
  "file_blob \<lparr>buf = bad_encryption_bytes, pos = 0\<rparr> = bad_encryption_bytes"
  "flags_field bad_storage_bytes = 0x17"
  "flags_field bad_encryption_bytes = 0x32"
  "length bad_storage_bytes = 30"
  "length bad_encryption_bytes = 30"
  by (simp_all add: file_blob_def flags_field_def bad_storage_bytes_def bad_encryption_bytes_def
      scenario_bytes_def)

subsection \<open>Headers\<close>

lemma header_Struct_pack:
  assumes "ptrs_fit p"
  shows "Struct_pack meta_header_layout
       [PyBytes e, PyInt (header_pos p), PyInt (header_size p), PyInt (ArchivePtrs.data_pos p),
        PyInt (data_size p), PyInt RSV_0, PyInt RSV_1, PyBytes h]
     = Inr (header_bytes e p h)"
proof -
  have "fits 4 0" "fits 4 1" by (simp_all add: fits_def)
  then show ?thesis using assms
    by (simp add: ptrs_fit_def meta_header_layout_def pack_int_fits pack_bytes_def
        header_bytes_def RSV_0_def RSV_1_def del: le_bytes.simps)
qed

lemma header_Struct_pack_Inr:
  assumes "Struct_pack meta_header_layout
       [PyBytes e, PyInt (header_pos p), PyInt (header_size p), PyInt (ArchivePtrs.data_pos p),
        PyInt (data_size p), PyInt RSV_0, PyInt RSV_1, PyBytes h] = Inr b"
  shows "ptrs_fit p"
  using assms
  by (auto simp: ptrs_fit_def meta_header_layout_def pack_int_def pack_bytes_def fits_def
      split: sum.splits if_splits simp del: le_bytes.simps)

lemma header_bytes_length: "length (header_bytes e p h) = 416"
  by (simp add: header_bytes_def)

lemma header_pack_ok:
  assumes "name m = Some s" "utf_16_le_encode s = Inr e" "ptrs m = Some p" "ptrs_fit p"
  shows "\<exists>s'. ArchiveHeaderSerializer_pack meta_header_layout st m = Inr (416, s')"
  using Struct_pack_stream_ok[OF header_Struct_pack[OF assms(4)], of st e "sha_256 m"] assms(1-3)
  by (simp add: ArchiveHeaderSerializer_pack_def header_bytes_length)

lemma header_unpack_pack:
  assumes "ArchiveHeaderSerializer_pack meta_header_layout st m = Inr (n, s')"
    and "name m = Some s" "utf_16_le_encode s = Inr e" "ptrs m = Some p"
  shows "ArchiveHeaderSerializer_unpack meta_header_layout (stream_seek s' (pos st)) =
     (case utf_16_le_decode (take 128 e @ replicate (128 - length e) 0) of
        Inl x \<Rightarrow> Inl x
      | Inr t \<Rightarrow> Inr (\<lparr>name = Some (rstrip_nul t), ptrs = Some p,
                       sha_256 = take 256 (sha_256 m) @ replicate (256 - length (sha_256 m)) 0\<rparr>, s'))"
proof -
  have "Struct_pack_stream meta_header_layout st
       [PyBytes e, PyInt (header_pos p), PyInt (header_size p), PyInt (ArchivePtrs.data_pos p),
        PyInt (data_size p), PyInt RSV_0, PyInt RSV_1, PyBytes (sha_256 m)] = Inr (n, s')"
    using assms by (simp add: ArchiveHeaderSerializer_pack_def)
  from Struct_stream_roundtrip(1)[OF this] show ?thesis
    by (simp add: ArchiveHeaderSerializer_unpack_def meta_header_layout_def RSV_0_def RSV_1_def
        split: sum.splits)
qed

lemma name_field_fits:
  assumes "utf_16_le_encode s = Inr e" "length e \<le> 128" "s = [] \<or> last s \<noteq> 0"
  shows "\<exists>t. utf_16_le_decode (take 128 e @ replicate (128 - length e) 0) = Inr t \<and> rstrip_nul t = s"
proof -
  have "even (128 - length e)"
    using encode_even[OF assms(1)] assms(2) by simp
  then obtain k where k: "128 - length e = 2 * k"
    by (elim evenE)
  have tk: "take 128 e = e" using assms(2) by simp
  have "utf_16_le_decode (e @ replicate (2 * k) 0) = Inr (s @ replicate k 0)"
    unfolding decode_encode_append[OF assms(1)] decode_zeros by simp
  moreover have "rstrip_nul (s @ replicate k 0) = s"
    unfolding rstrip_nul_append_zeros by (rule rstrip_nul_id[OF assms(3)])
  ultimately show ?thesis unfolding tk k by blast
qed

lemma name_field_long:
  assumes "utf_16_le_encode s = Inr e" "128 < length e"
    and "utf_16_le_decode (take 128 e @ replicate (128 - length e) 0) = Inr t"
  shows "rstrip_nul t \<noteq> s"
proof
  assume eq: "rstrip_nul t = s"
  from rstrip_nul_decomp[of t] obtain k where t: "t = s @ replicate k 0" using eq by auto
  have "utf_16_le_encode t = Inr (take 128 e)"
    using encode_decode[OF assms(3)] assms(2) by simp
  then have "take 128 e = e @ replicate (2 * k) 0"
    by (simp add: t encode_append assms(1) encode_zeros)
  then have "length (take 128 e) = length (e @ replicate (2 * k) 0)" by simp
  with assms(2) show False by simp
qed

lemma MetaBlock_unpack_pack:
  assumes "valid_MetaBlock m"
  shows "\<exists>s'. ArchiveHeaderSerializer_pack meta_header_layout s m = Inr (416, s') \<and>
     ArchiveHeaderSerializer_unpack meta_header_layout (stream_seek s' (pos s)) = Inr (m, s')"
proof -
  from assms obtain n e p where n: "name m = Some n" and e: "utf_16_le_encode n = Inr e"
    and le: "length e \<le> 128" and nz: "n = [] \<or> last n \<noteq> 0"
    and p: "ptrs m = Some p" and pf: "ptrs_fit p" and h: "length (sha_256 m) = 256"
    by (auto simp: valid_MetaBlock_def split: option.splits sum.splits)
  from header_pack_ok[OF n e p pf, of s] obtain s' where
    pk: "ArchiveHeaderSerializer_pack meta_header_layout s m = Inr (416, s')" by blast
  from name_field_fits[OF e le nz] obtain t where
    t: "utf_16_le_decode (take 128 e @ replicate (128 - length e) 0) = Inr t" "rstrip_nul t = n"
    by blast
  have "\<lparr>name = Some n, ptrs = Some p, sha_256 = sha_256 m\<rparr> = m"
    using n p by simp
  then have "ArchiveHeaderSerializer_unpack meta_header_layout (stream_seek s' (pos s)) = Inr (m, s')"
    using header_unpack_pack[OF pk n e p] t h by simp
  with pk show ?thesis by blast
qed

lemma unpack_fields_meta_header:
  "unpack_fields meta_header_layout b =
     [PyBytes (name_field b),
      PyInt (header_pos (ptrs_field b)), PyInt (header_size (ptrs_field b)),
      PyInt (ArchivePtrs.data_pos (ptrs_field b)), PyInt (data_size (ptrs_field b)),
      PyInt (fst (reserved_fields b)), PyInt (snd (reserved_fields b)),
      PyBytes (hash_field b)]"
  by (simp add: meta_header_layout_def name_field_def ptrs_field_def reserved_fields_def
      hash_field_def)

lemma Struct_size_meta_header: "Struct_size meta_header_layout = 416"
  by (simp add: Struct_size_def meta_header_layout_def)

lemma header_unpack_cases:
  "ArchiveHeaderSerializer_unpack meta_header_layout s =
     (if length (header_blob s) \<noteq> 416 then Inl StructError
      else
        (case utf_16_le_decode (name_field (header_blob s)) of
           Inl e \<Rightarrow> Inl e
         | Inr t \<Rightarrow>
             if reserved_fields (header_blob s) \<noteq> (0, 1) then
               Inl (MismatchError ''Reserved Flags'' (reserved_fields (header_blob s)) (0, 1))
             else
               Inr (\<lparr>name = Some (rstrip_nul t), ptrs = Some (ptrs_field (header_blob s)),
                     sha_256 = hash_field (header_blob s)\<rparr>,
                    s\<lparr>pos := pos s + 416\<rparr>)))"
proof -
  have r: "stream_read s 416 = (header_blob s, s\<lparr>pos := pos s + length (header_blob s)\<rparr>)"
    by (simp add: stream_read_def header_blob_def Let_def)
  have ptrs: "\<lparr>header_pos = header_pos (ptrs_field b), header_size = header_size (ptrs_field b),
      ArchivePtrs.data_pos = ArchivePtrs.data_pos (ptrs_field b),
      data_size = data_size (ptrs_field b)\<rparr> = ptrs_field b" for b
    by simp
  show ?thesis
  proof (cases "length (header_blob s) = 416")
    case False
    then have "Struct_unpack meta_header_layout (header_blob s) = Inl StructError"
      by (simp add: Struct_unpack_def Struct_size_meta_header)
    then show ?thesis using False
      by (simp add: ArchiveHeaderSerializer_unpack_def Struct_unpack_stream_def
          Struct_size_meta_header r)
  next
    case True
    then have "Struct_unpack meta_header_layout (header_blob s) =
        Inr (unpack_fields meta_header_layout (header_blob s))"
      by (simp add: Struct_unpack_def Struct_size_meta_header)
    then show ?thesis using True
      by (simp add: ArchiveHeaderSerializer_unpack_def Struct_unpack_stream_def
          Struct_size_meta_header r unpack_fields_meta_header RSV_0_def RSV_1_def
          ptrs Let_def prod_eq_iff split: sum.splits)
  qed
qed

lemma header_blob_length: "pos s + 416 \<le> length (buf s) \<Longrightarrow> length (header_blob s) = 416"
  by (simp add: header_blob_def)

lemma header_bytes_fields:
  assumes "ptrs_fit p"
  shows "name_field (header_bytes e p h) = take 128 e @ replicate (128 - length e) 0"
    and "ptrs_field (header_bytes e p h) = p"
    and "reserved_fields (header_bytes e p h) = (0, 1)"
    and "hash_field (header_bytes e p h) = take 256 h @ replicate (256 - length h) 0"
proof -
  let ?B = "header_bytes e p h"
  have "unpack_fields meta_header_layout ?B =
      map2 stored meta_header_layout
        [PyBytes e, PyInt (header_pos p), PyInt (header_size p), PyInt (ArchivePtrs.data_pos p),
         PyInt (data_size p), PyInt RSV_0, PyInt RSV_1, PyBytes h]"
    by (rule unpack_fields_pack[OF header_Struct_pack[OF assms]])
  moreover have "map2 stored meta_header_layout
        [PyBytes e, PyInt (header_pos p), PyInt (header_size p), PyInt (ArchivePtrs.data_pos p),
         PyInt (data_size p), PyInt RSV_0, PyInt RSV_1, PyBytes h] =
      [PyBytes (take 128 e @ replicate (128 - length e) 0),
       PyInt (header_pos p), PyInt (header_size p), PyInt (ArchivePtrs.data_pos p),
       PyInt (data_size p), PyInt 0, PyInt 1,
       PyBytes (take 256 h @ replicate (256 - length h) 0)]"
    by (simp add: meta_header_layout_def RSV_0_def RSV_1_def)
  ultimately have "[PyBytes (name_field ?B),
      PyInt (header_pos (ptrs_field ?B)), PyInt (header_size (ptrs_field ?B)),
      PyInt (ArchivePtrs.data_pos (ptrs_field ?B)), PyInt (data_size (ptrs_field ?B)),
      PyInt (fst (reserved_fields ?B)), PyInt (snd (reserved_fields ?B)),
      PyBytes (hash_field ?B)] =
      [PyBytes (take 128 e @ replicate (128 - length e) 0),
       PyInt (header_pos p), PyInt (header_size p), PyInt (ArchivePtrs.data_pos p),
       PyInt (data_size p), PyInt 0, PyInt 1,
       PyBytes (take 256 h @ replicate (256 - length h) 0)]"
    by (simp only: unpack_fields_meta_header)
  then have f: "name_field (header_bytes e p h) = take 128 e @ replicate (128 - length e) 0"
    "header_pos (ptrs_field (header_bytes e p h)) = header_pos p"
    "header_size (ptrs_field (header_bytes e p h)) = header_size p"
    "ArchivePtrs.data_pos (ptrs_field (header_bytes e p h)) = ArchivePtrs.data_pos p"
    "data_size (ptrs_field (header_bytes e p h)) = data_size p"
    "fst (reserved_fields (header_bytes e p h)) = 0"
    "snd (reserved_fields (header_bytes e p h)) = 1"
    "hash_field (header_bytes e p h) = take 256 h @ replicate (256 - length h) 0"
    by simp_all
  show "name_field (header_bytes e p h) = take 128 e @ replicate (128 - length e) 0"
    by (rule f(1))
  show "ptrs_field (header_bytes e p h) = p"
    using f(2-5) by (cases p; cases "ptrs_field (header_bytes e p h)") simp
  show "reserved_fields (header_bytes e p h) = (0, 1)"
    using f(6,7) by (simp add: prod_eq_iff)
  show "hash_field (header_bytes e p h) = take 256 h @ replicate (256 - length h) 0"
    by (rule f(8))
qed

lemma header_written:
  assumes "ArchiveHeaderSerializer_pack meta_header_layout s m = Inr (n, s')"
  shows "\<exists>nm e p. name m = Some nm \<and> utf_16_le_encode nm = Inr e \<and> ptrs m = Some p \<and>
           ptrs_fit p \<and> n = 416 \<and>
           header_blob (stream_seek s' (pos s)) = header_bytes e p (sha_256 m)"
proof -
  from assms obtain nm e p where m: "name m = Some nm" "utf_16_le_encode nm = Inr e" "ptrs m = Some p"
    and ps: "Struct_pack_stream meta_header_layout s
       [PyBytes e, PyInt (header_pos p), PyInt (header_size p), PyInt (ArchivePtrs.data_pos p),
        PyInt (data_size p), PyInt RSV_0, PyInt RSV_1, PyBytes (sha_256 m)] = Inr (n, s')"
    by (auto simp: ArchiveHeaderSerializer_pack_def split: option.splits sum.splits)
  from ps obtain b where b: "Struct_pack meta_header_layout
       [PyBytes e, PyInt (header_pos p), PyInt (header_size p), PyInt (ArchivePtrs.data_pos p),
        PyInt (data_size p), PyInt RSV_0, PyInt RSV_1, PyBytes (sha_256 m)] = Inr b"
    and w: "stream_write s b = (n, s')"
    by (auto simp: Struct_pack_stream_def split: sum.splits)
  have pf: "ptrs_fit p" by (rule header_Struct_pack_Inr[OF b])
  have bb: "b = header_bytes e p (sha_256 m)"
    using b header_Struct_pack[OF pf, of e "sha_256 m"] by simp
  have "n = 416" using stream_read_after_write(2)[OF w] by (simp add: bb header_bytes_length)
  moreover have "header_blob (stream_seek s' (pos s)) = b"
    using stream_written[OF w] by (simp add: header_blob_def stream_seek_def bb header_bytes_length)
  ultimately show ?thesis using m pf bb by simp
qed

lemma long_name_pack:
  assumes "name m = Some n" "utf_16_le_encode n = Inr e" "128 < length e"
    and "ptrs m = Some p" "ptrs_fit p"
  shows "\<exists>s'. ArchiveHeaderSerializer_pack meta_header_layout s m = Inr (416, s') \<and>
           name_field (header_blob (stream_seek s' (pos s))) = take 128 e \<and>
           (\<forall>m' s''. ArchiveHeaderSerializer_unpack meta_header_layout (stream_seek s' (pos s))
                        = Inr (m', s'') \<longrightarrow> name m' \<noteq> name m)"
proof -
  from header_pack_ok[OF assms(1,2,4,5), of s] obtain s' where
    pk: "ArchiveHeaderSerializer_pack meta_header_layout s m = Inr (416, s')" by blast
  from header_written[OF pk] assms(1,2,4)
  have hb: "header_blob (stream_seek s' (pos s)) = header_bytes e p (sha_256 m)" by auto
  have nf: "name_field (header_blob (stream_seek s' (pos s))) = take 128 e"
    using assms(3) by (simp add: hb header_bytes_fields(1)[OF assms(5)])
  have "name m' \<noteq> name m"
    if "ArchiveHeaderSerializer_unpack meta_header_layout (stream_seek s' (pos s)) = Inr (m', s'')"
    for m' s''
  proof -
    from that header_unpack_pack[OF pk assms(1,2,4)]
    obtain t where t: "utf_16_le_decode (take 128 e @ replicate (128 - length e) 0) = Inr t"
      and m': "name m' = Some (rstrip_nul t)"
      by (auto split: sum.splits)
    from name_field_long[OF assms(2,3) t] show ?thesis by (simp add: m' assms(1))
  qed
  with pk nf show ?thesis by blast
qed

lemma roundtrip_name_fits:
  assumes "ArchiveHeaderSerializer_pack meta_header_layout s m = Inr (k, s1)"
    and "ArchiveHeaderSerializer_unpack meta_header_layout (stream_seek s1 (pos s)) = Inr (m, s2)"
  shows "\<exists>n e. name m = Some n \<and> utf_16_le_encode n = Inr e \<and> length e \<le> 128 \<and>
           (n = [] \<or> last n \<noteq> 0)"
proof -
  from header_written[OF assms(1)] obtain n e p where
    m: "name m = Some n" "utf_16_le_encode n = Inr e" "ptrs m = Some p" by blast
  from assms(2) header_unpack_pack[OF assms(1) m]
  obtain t where t: "utf_16_le_decode (take 128 e @ replicate (128 - length e) 0) = Inr t"
    and eq: "\<lparr>name = Some (rstrip_nul t), ptrs = Some p,
              sha_256 = take 256 (sha_256 m) @ replicate (256 - length (sha_256 m)) 0\<rparr> = m"
    by (auto split: sum.splits)
  from arg_cong[OF eq, of name] m(1) have r: "rstrip_nul t = n" by simp
  have "length e \<le> 128"
  proof (rule ccontr)
    assume "\<not> length e \<le> 128"
    then have "128 < length e" by simp
    from name_field_long[OF m(2) this t] r show False by simp
  qed
  moreover have "n = [] \<or> last n \<noteq> 0"
    using rstrip_nul_last[of t] by (simp add: r)
  ultimately show ?thesis using m by blast
qed

lemma default_name_encoded:
  "utf_16_le_encode (str_lit ''Default Meta Block'') =
     Inr [68, 0, 101, 0, 102, 0, 97, 0, 117, 0, 108, 0, 116, 0, 32, 0, 77, 0, 101, 0, 116, 0,
          97, 0, 32, 0, 66, 0, 108, 0, 111, 0, 99, 0, 107, 0]"
  by (simp add: str_lit_def encode_char_def is_surrogate_def unit_bytes_def)

lemma default_hash_length: "length (sha_256 MetaBlock_default) = 256"
  by (simp add: MetaBlock_default_def bytes_lit_def length_concat sum_list_replicate)

lemma valid_MetaBlock_default: "valid_MetaBlock MetaBlock_default"
proof -
  have "name MetaBlock_default = Some (str_lit ''Default Meta Block'')"
    "ptrs MetaBlock_default = Some ArchivePtrs_default"
    by (simp_all add: MetaBlock_default_def)
  moreover have "ptrs_fit ArchivePtrs_default"
    by (simp add: ptrs_fit_def ArchivePtrs_default_def fits_def)
  moreover have "last (str_lit ''Default Meta Block'') \<noteq> 0"
    by (simp add: str_lit_def)
  ultimately show ?thesis
    by (simp add: valid_MetaBlock_def default_name_encoded default_hash_length)
qed

lemma zero_header_fields:
  "header_blob \<lparr>buf = zero_header, pos = 0\<rparr> = zero_header"
  "name_field zero_header = replicate 128 0"
  "reserved_fields zero_header = (0, 1)"
  "ptrs_field zero_header = ArchivePtrs_default"
  "hash_field zero_header = replicate 256 0"
  by (simp_all add: header_blob_def zero_header_def name_field_def reserved_fields_def
      ptrs_field_def hash_field_def ArchivePtrs_default_def le_int_zeros)

lemma bad_name_header_fields:
  "header_blob \<lparr>buf = bad_name_header, pos = 0\<rparr> = bad_name_header"
  "name_field bad_name_header = 0 # 0xD8 # 0 # 0 # replicate 124 0"
  "reserved_fields bad_name_header = (0, 1)"
  by (simp_all add: header_blob_def bad_name_header_def name_field_def reserved_fields_def
      le_int_zeros)

lemma wrong_reserved_header_fields:
  "header_blob \<lparr>buf = wrong_reserved_header, pos = 0\<rparr> = wrong_reserved_header"
  "name_field wrong_reserved_header = replicate 128 0"
  "reserved_fields wrong_reserved_header = (7, 1)"
  by (simp_all add: header_blob_def wrong_reserved_header_def name_field_def reserved_fields_def
      le_int_zeros)

lemma decoded_name_fields:
  "utf_16_le_decode (name_field zero_header) = Inr (replicate 64 0)"
  "utf_16_le_decode (name_field wrong_reserved_header) = Inr (replicate 64 0)"
  "utf_16_le_decode (name_field bad_name_header) = Inl UnicodeDecodeError"
  unfolding zero_header_fields wrong_reserved_header_fields bad_name_header_fields
  by (rule decode_128_zeros decode_lone_high_surrogate)+

lemma split_pair_encoded:
  "utf_16_le_encode (replicate 63 65 @ [0x1F600]) =
     Inr (concat (replicate 63 [65, 0]) @ [0x3D, 0xD8, 0x00, 0xDE])"
  by (simp add: encode_append encode_As encode_char_def unit_bytes_def)

lemma default_name_bytes:
  "utf_16_le_encode (str_lit ''Default Meta Block'') = Inr default_name_bytes"
  "length default_name_bytes \<le> 128"
  by (simp_all add: default_name_encoded default_name_bytes_def)

lemma Struct_pack_stream_empty:
  assumes "Struct_pack L args = Inr b" "b \<noteq> []"
  shows "Struct_pack_stream L \<lparr>buf = [], pos = 0\<rparr> args = Inr (length b, \<lparr>buf = b, pos = length b\<rparr>)"
  using assms by (simp add: Struct_pack_stream_def stream_write_def)

lemma digest_block_fields:
  "name digest_block = Some (str_lit ''Default Meta Block'')"
  "ptrs digest_block = Some ArchivePtrs_default"
  "sha_256 digest_block = replicate 32 7"
  by (simp_all add: digest_block_def MetaBlock_default_def)

lemma ptrs_fit_default: "ptrs_fit ArchivePtrs_default"
  by (simp add: ptrs_fit_def ArchivePtrs_default_def fits_def)

lemma digest_block_pack:
  "ArchiveHeaderSerializer_pack meta_header_layout \<lparr>buf = [], pos = 0\<rparr> digest_block =
     Inr (416, \<lparr>buf = digest_header, pos = 416\<rparr>)"
proof -
  have l: "length digest_header = 416" by (simp add: digest_header_def header_bytes_length)
  then have ne: "digest_header \<noteq> []" by auto
  have "Struct_pack meta_header_layout
       [PyBytes default_name_bytes, PyInt (header_pos ArchivePtrs_default),
        PyInt (header_size ArchivePtrs_default), PyInt (ArchivePtrs.data_pos ArchivePtrs_default),
        PyInt (data_size ArchivePtrs_default), PyInt RSV_0, PyInt RSV_1, PyBytes (replicate 32 7)]
     = Inr digest_header"
    unfolding digest_header_def by (rule header_Struct_pack[OF ptrs_fit_default])
  from Struct_pack_stream_empty[OF this ne]
  show ?thesis
    by (simp add: ArchiveHeaderSerializer_pack_def digest_block_fields default_name_bytes(1) l)
qed

lemma digest_block_unpack:
  "ArchiveHeaderSerializer_unpack meta_header_layout \<lparr>buf = digest_header, pos = 0\<rparr> =
     Inr (digest_block\<lparr>sha_256 := replicate 32 7 @ replicate 224 0\<rparr>,
          \<lparr>buf = digest_header, pos = 416\<rparr>)"
proof -
  have nz: "str_lit ''Default Meta Block'' = [] \<or> last (str_lit ''Default Meta Block'') \<noteq> 0"
    by (simp add: str_lit_def)
  from name_field_fits[OF default_name_bytes nz] obtain t where
    t: "utf_16_le_decode (take 128 default_name_bytes
          @ replicate (128 - length default_name_bytes) 0) = Inr t"
    and r: "rstrip_nul t = str_lit ''Default Meta Block''"
    by blast
  have eq: "\<lparr>name = Some (str_lit ''Default Meta Block''), ptrs = Some ArchivePtrs_default,
       sha_256 = replicate 32 7 @ replicate 224 0\<rparr> =
     digest_block\<lparr>sha_256 := replicate 32 7 @ replicate 224 0\<rparr>"
    by (simp add: digest_block_def MetaBlock_default_def)
  have s: "stream_seek \<lparr>buf = digest_header, pos = 416\<rparr> (pos \<lparr>buf = [], pos = 0\<rparr>) =
      \<lparr>buf = digest_header, pos = 0\<rparr>"
    by (simp add: stream_seek_def)
  have "ArchiveHeaderSerializer_unpack meta_header_layout \<lparr>buf = digest_header, pos = 0\<rparr> =
     Inr (\<lparr>name = Some (rstrip_nul t), ptrs = Some ArchivePtrs_default,
           sha_256 = take 256 (sha_256 digest_block) @
             replicate (256 - length (sha_256 digest_block)) 0\<rparr>,
          \<lparr>buf = digest_header, pos = 416\<rparr>)"
    using header_unpack_pack[OF digest_block_pack digest_block_fields(1) default_name_bytes(1)
        digest_block_fields(2)]
    unfolding s t by simp
  then show ?thesis
    unfolding r digest_block_fields(3) by (simp add: eq)
qed

lemma pack_field_Inl: "pack_field f v = Inl e \<Longrightarrow> e = StructError"
  by (cases f; cases v) (auto simp: pack_int_def pack_bytes_def split: if_splits)

lemma Struct_pack_Inl: "Struct_pack L args = Inl e \<Longrightarrow> e = StructError"
proof (induction L args rule: Struct_pack.induct)
  case (2 f fs v vs)
  then show ?case by (auto split: sum.splits dest: pack_field_Inl)
qed simp_all

lemma decode_Inl: "utf_16_le_decode b = Inl x \<Longrightarrow> x = UnicodeDecodeError"
proof (induction b rule: utf_16_le_decode.induct)
  case (3 b0 b1 rest)
  then show ?case by (auto split: if_splits sum.splits list.splits)
qed simp_all

lemma header_pack_overflow:
  assumes "name m = Some n" "utf_16_le_encode n = Inr e" "ptrs m = Some p" "\<not> ptrs_fit p"
  shows "ArchiveHeaderSerializer_pack meta_header_layout s m = Inl StructError"
proof -
  let ?args = "[PyBytes e, PyInt (header_pos p), PyInt (header_size p),
      PyInt (ArchivePtrs.data_pos p), PyInt (data_size p), PyInt RSV_0, PyInt RSV_1,
      PyBytes (sha_256 m)]"
  have "Struct_pack meta_header_layout ?args = Inl StructError"
  proof (cases "Struct_pack meta_header_layout ?args")
    case (Inl x)
    then show ?thesis using Struct_pack_Inl[OF Inl] by simp
  next
    case (Inr b)
    from header_Struct_pack_Inr[OF Inr] assms(4) show ?thesis by simp
  qed
  then show ?thesis
    by (simp add: ArchiveHeaderSerializer_pack_def assms(1-3) Struct_pack_stream_def)
qed

lemma long_name_unpack:
  assumes "ArchiveHeaderSerializer_pack meta_header_layout s m = Inr (k, s')"
    and "name m = Some n" "utf_16_le_encode n = Inr e" "128 < length e" "ptrs m = Some p"
  shows "case utf_16_le_decode (take 128 e) of
           Inl x \<Rightarrow>
             ArchiveHeaderSerializer_unpack meta_header_layout (stream_seek s' (pos s))
               = Inl UnicodeDecodeError
         | Inr t \<Rightarrow>
             rstrip_nul t \<noteq> n \<and>
             ArchiveHeaderSerializer_unpack meta_header_layout (stream_seek s' (pos s)) =
               Inr (\<lparr>name = Some (rstrip_nul t), ptrs = Some p,
                     sha_256 = take 256 (sha_256 m) @ replicate (256 - length (sha_256 m)) 0\<rparr>,
                    s')"
proof -
  have f: "take 128 e @ replicate (128 - length e) 0 = take 128 e" using assms(4) by simp
  note u = header_unpack_pack[OF assms(1,2,3,5), unfolded f]
  show ?thesis
  proof (cases "utf_16_le_decode (take 128 e)")
    case (Inl x)
    with decode_Inl[OF Inl] u show ?thesis by simp
  next
    case (Inr t)
    from name_field_long[OF assms(3,4), unfolded f, OF Inr] have "rstrip_nul t \<noteq> n" .
    with Inr u show ?thesis by simp
  qed
qed

lemma split_pair_name_encoded:
  "utf_16_le_encode (replicate 63 65 @ [0x1F600]) = Inr split_pair_name_bytes"
  "length split_pair_name_bytes = 130"
  by (simp_all add: split_pair_encoded split_pair_name_bytes_def length_concat sum_list_replicate)

lemma split_pair_block_fields:
  "name split_pair_block = Some (replicate 63 65 @ [0x1F600])"
  "ptrs split_pair_block = Some ArchivePtrs_default"
  "sha_256 split_pair_block = sha_256 MetaBlock_default"
  by (simp_all add: split_pair_block_def MetaBlock_default_def)

lemma split_pair_cut:
  "utf_16_le_decode (take 128 split_pair_name_bytes) = Inl UnicodeDecodeError"
proof -
  have l: "length (concat (replicate 63 [65, 0::byte])) = 126"
    by (simp add: length_concat sum_list_replicate)
  have "take 128 split_pair_name_bytes = concat (replicate 63 [65, 0]) @ [0x3D, 0xD8]"
    by (simp add: split_pair_name_bytes_def l)
  moreover have "utf_16_le_decode (concat (replicate 63 [65, 0]) @ [0x3D, 0xD8]) = Inl UnicodeDecodeError"
    by (simp add: decode_encode_append[OF encode_As] unit_of_def is_surrogate_def)
  ultimately show ?thesis by simp
qed

lemma split_pair_pack:
  "ArchiveHeaderSerializer_pack meta_header_layout \<lparr>buf = [], pos = 0\<rparr> split_pair_block =
     Inr (416, \<lparr>buf = split_pair_header, pos = 416\<rparr>)"
proof -
  have l: "length split_pair_header = 416" by (simp add: split_pair_header_def header_bytes_length)
  then have ne: "split_pair_header \<noteq> []" by auto
  have "Struct_pack meta_header_layout
       [PyBytes split_pair_name_bytes, PyInt (header_pos ArchivePtrs_default),
        PyInt (header_size ArchivePtrs_default), PyInt (ArchivePtrs.data_pos ArchivePtrs_default),
        PyInt (data_size ArchivePtrs_default), PyInt RSV_0, PyInt RSV_1,
        PyBytes (sha_256 MetaBlock_default)]
     = Inr split_pair_header"
    unfolding split_pair_header_def by (rule header_Struct_pack[OF ptrs_fit_default])
  from Struct_pack_stream_empty[OF this ne]
  show ?thesis
    by (simp add: ArchiveHeaderSerializer_pack_def split_pair_block_fields
        split_pair_name_encoded(1) l)
qed

lemma split_pair_unpack:
  "ArchiveHeaderSerializer_unpack meta_header_layout \<lparr>buf = split_pair_header, pos = 0\<rparr> =
     Inl UnicodeDecodeError"
proof -
  have s: "stream_seek \<lparr>buf = split_pair_header, pos = 416\<rparr> (pos \<lparr>buf = [], pos = 0\<rparr>) =
      \<lparr>buf = split_pair_header, pos = 0\<rparr>"
    by (simp add: stream_seek_def)
  have f: "take 128 split_pair_name_bytes @ replicate (128 - length split_pair_name_bytes) 0 =
      take 128 split_pair_name_bytes"
    by (simp add: split_pair_name_encoded(2))
  from header_unpack_pack[OF split_pair_pack split_pair_block_fields(1)
      split_pair_name_encoded(1) split_pair_block_fields(2)]
  show ?thesis unfolding s f split_pair_cut by simp
qed

lemma overflow_block_fields:
  "name overflow_block = Some (replicate 65 65)"
  "ptrs overflow_block = Some (ArchivePtrs_default\<lparr>header_size := 2 ^ 32\<rparr>)"
  "\<not> ptrs_fit (ArchivePtrs_default\<lparr>header_size := 2 ^ 32\<rparr>)"
  by (simp_all add: overflow_block_def long_name_block_def ptrs_fit_def fits_def
      ArchivePtrs_default_def)

lemma long_name_encoded:
  "utf_16_le_encode (replicate 65 65) = Inr (concat (replicate 65 [65, 0]))"
  "length (concat (replicate 65 [65, 0::byte])) = 130"
  by (simp_all add: encode_As length_concat sum_list_replicate)

lemma overflow_pack:
  "ArchiveHeaderSerializer_pack meta_header_layout \<lparr>buf = [], pos = 0\<rparr> overflow_block =
     Inl StructError"
  by (rule header_pack_overflow[OF overflow_block_fields(1) long_name_encoded(1)
        overflow_block_fields(2,3)])

lemma take_concat_pairs:
  "take (2 * k) (concat (replicate (k + j) [a, b])) = concat (replicate k [a, b])"
  by (induction k) simp_all

lemma long_name_cut:
  "take 128 (concat (replicate 65 [65, 0::byte])) = concat (replicate 64 [65, 0])"
  "utf_16_le_decode (concat (replicate 64 [65, 0])) = Inr (replicate 64 65)"
  "rstrip_nul (replicate 64 65) = replicate 64 65"
proof -
  show "take 128 (concat (replicate 65 [65, 0::byte])) = concat (replicate 64 [65, 0])"
    using take_concat_pairs[of 64 1 "65::byte" 0] by simp
  show "utf_16_le_decode (concat (replicate 64 [65, 0])) = Inr (replicate 64 65)"
    using decode_encode_append[OF encode_As[of 64], of "[]"] by simp
  show "rstrip_nul (replicate 64 65) = replicate 64 65"
    by (rule rstrip_nul_id) simp
qed

lemma long_name_block_fields:
  "name long_name_block = Some (replicate 65 65)"
  "ptrs long_name_block = Some ArchivePtrs_default"
  "sha_256 long_name_block = sha_256 MetaBlock_default"
  by (simp_all add: long_name_block_def MetaBlock_default_def)

lemma no_ptrs_block_fields:
  "name no_ptrs_block = Some (replicate 65 65)"
  "ptrs no_ptrs_block = None"
  by (simp_all add: no_ptrs_block_def long_name_block_def)

lemma header_pack_hash:
  assumes "name m = Some n" "utf_16_le_encode n = Inr e" "ptrs m = Some p" "ptrs_fit p"
  shows "\<exists>s1. ArchiveHeaderSerializer_pack meta_header_layout s m = Inr (416, s1) \<and>
           hash_field (header_blob (stream_seek s1 (pos s))) =
             take 256 (sha_256 m) @ replicate (256 - length (sha_256 m)) 0 \<and>
           length (hash_field (header_blob (stream_seek s1 (pos s)))) = 256"
proof -
  from header_pack_ok[OF assms, of s] obtain s1 where
    pk: "ArchiveHeaderSerializer_pack meta_header_layout s m = Inr (416, s1)" by blast
  from header_written[OF pk] assms(1-3)
  have hb: "header_blob (stream_seek s1 (pos s)) = header_bytes e p (sha_256 m)" by auto
  have h: "hash_field (header_blob (stream_seek s1 (pos s))) =
        take 256 (sha_256 m) @ replicate (256 - length (sha_256 m)) 0"
    by (simp add: hb header_bytes_fields(4)[OF assms(4)])
  have "length (hash_field (header_blob (stream_seek s1 (pos s)))) = 256"
    unfolding h by simp
  with pk h show ?thesis by blast
qed

section \<open>The claims\<close>

subsection \<open>Claim C1\<close>

text \<open>
  Claim C1 (as amended).  For every \<^verbatim>\<open>FileDef\<close>, \<^verbatim>\<open>MetaBlock\<close> and
  \<^verbatim>\<open>TocFooter\<close> that is valid for its layout (integers within the range of their
  fields, enumeration members, a name that takes at most 128 bytes encoded and does not
  end in NUL, a hash of exactly 256 bytes), packing the record into a stream and
  unpacking from where the packing started returns the record itself.
\<close>

theorem serializers_roundtrip:
  "(valid_FileDef storage_members verification_members d \<longrightarrow>
      (\<exists>s'. FileDefSerializer_pack file_layout s d = Inr (30, s') \<and>
            FileDefSerializer_unpack storage_members verification_members file_layout
              (stream_seek s' (pos s)) = Inr (d, s'))) \<and>
   (valid_MetaBlock m \<longrightarrow>
      (\<exists>s'. ArchiveHeaderSerializer_pack meta_header_layout s m = Inr (416, s') \<and>
            ArchiveHeaderSerializer_unpack meta_header_layout (stream_seek s' (pos s)) = Inr (m, s'))) \<and>
   (valid_TocFooter f \<longrightarrow>
      (\<exists>s'. TocFooterSerializer_pack toc_footer_layout s f = Inr (12, s') \<and>
            TocFooterSerializer_unpack toc_footer_layout (stream_seek s' (pos s)) = Inr (f, s')))"
proof (intro conjI impI)
  assume v: "valid_FileDef storage_members verification_members d"
  from FileDef_pack_ok[OF v, of s] obtain s' where
    pk: "FileDefSerializer_pack file_layout s d = Inr (30, s')" by blast
  with FileDef_unpack_pack[OF v pk]
  show "\<exists>s'. FileDefSerializer_pack file_layout s d = Inr (30, s') \<and>
            FileDefSerializer_unpack storage_members verification_members file_layout
              (stream_seek s' (pos s)) = Inr (d, s')" by blast
next
  assume "valid_MetaBlock m"
  then show "\<exists>s'. ArchiveHeaderSerializer_pack meta_header_layout s m = Inr (416, s') \<and>
            ArchiveHeaderSerializer_unpack meta_header_layout (stream_seek s' (pos s)) = Inr (m, s')"
    by (rule MetaBlock_unpack_pack)
next
  assume v: "valid_TocFooter f"
  from TocFooter_pack_ok[OF v, of s] obtain s' where
    pk: "TocFooterSerializer_pack toc_footer_layout s f = Inr (12, s')" by blast
  with TocFooter_unpack_pack[OF pk]
  show "\<exists>s'. TocFooterSerializer_pack toc_footer_layout s f = Inr (12, s') \<and>
            TocFooterSerializer_unpack toc_footer_layout (stream_seek s' (pos s)) = Inr (f, s')"
    by blast
qed

theorem serializers_roundtrip_witness:
  "valid_FileDef [0, 1, 2] [0, 1, 2, 3, 4] example_FileDef \<and>
   valid_MetaBlock MetaBlock_default \<and>
   valid_TocFooter \<lparr>unk_a = PyInt 1, unk_b = PyInt 2, block_size = PyInt 4096\<rparr> \<and>
   (\<exists>s'. FileDefSerializer_pack file_layout \<lparr>buf = [], pos = 0\<rparr> example_FileDef = Inr (30, s') \<and>
         FileDefSerializer_unpack [0, 1, 2] [0, 1, 2, 3, 4] file_layout (stream_seek s' 0)
           = Inr (example_FileDef, s')) \<and>
   (\<exists>s'. ArchiveHeaderSerializer_pack meta_header_layout \<lparr>buf = [], pos = 0\<rparr> MetaBlock_default
           = Inr (416, s') \<and>
         ArchiveHeaderSerializer_unpack meta_header_layout (stream_seek s' 0)
           = Inr (MetaBlock_default, s')) \<and>
   (\<exists>s'. TocFooterSerializer_pack toc_footer_layout \<lparr>buf = [], pos = 0\<rparr>
           \<lparr>unk_a = PyInt 1, unk_b = PyInt 2, block_size = PyInt 4096\<rparr> = Inr (12, s') \<and>
         TocFooterSerializer_unpack toc_footer_layout (stream_seek s' 0)
           = Inr (\<lparr>unk_a = PyInt 1, unk_b = PyInt 2, block_size = PyInt 4096\<rparr>, s'))"
  using serializers_roundtrip[of "[0, 1, 2]" "[0, 1, 2, 3, 4]" example_FileDef
      "\<lparr>buf = [], pos = 0\<rparr>" MetaBlock_default "\<lparr>unk_a = PyInt 1, unk_b = PyInt 2, block_size = PyInt 4096\<rparr>"]
    valid_example_FileDef valid_MetaBlock_default valid_example_TocFooter
  by simp

text \<open>
  A header whose hash is a 32-byte digest is packed without an error and comes back with a
  hash of 256 bytes.
\<close>

theorem header_roundtrip_digest_counterexample:
  "ArchiveHeaderSerializer_pack meta_header_layout \<lparr>buf = [], pos = 0\<rparr> digest_block =
     Inr (416, \<lparr>buf = digest_header, pos = 416\<rparr>) \<and>
   ArchiveHeaderSerializer_unpack meta_header_layout
       (stream_seek \<lparr>buf = digest_header, pos = 416\<rparr> 0) =
     Inr (digest_block\<lparr>sha_256 := replicate 32 7 @ replicate 224 0\<rparr>,
          \<lparr>buf = digest_header, pos = 416\<rparr>) \<and>
   length (sha_256 digest_block) = 32 \<and>
   digest_block\<lparr>sha_256 := replicate 32 7 @ replicate 224 0\<rparr> \<noteq> digest_block"
proof -
  have "length (sha_256 (digest_block\<lparr>sha_256 := replicate 32 7 @ replicate 224 0\<rparr>))
      \<noteq> length (sha_256 digest_block)"
    by (simp add: digest_block_fields(3))
  then have ne: "digest_block\<lparr>sha_256 := replicate 32 7 @ replicate 224 0\<rparr> \<noteq> digest_block"
    by metis
  have s: "stream_seek \<lparr>buf = digest_header, pos = 416\<rparr> 0 = \<lparr>buf = digest_header, pos = 0\<rparr>"
    by (simp add: stream_seek_def)
  have l: "length (sha_256 digest_block) = 32" by (simp add: digest_block_fields(3))
  from digest_block_pack digest_block_unpack ne l show ?thesis
    unfolding s by blast
qed

subsection \<open>Claim C2\<close>

text \<open>
  Claim C2 (as amended).  On a stream that holds a whole 416-byte header whose name field is
  well-formed UTF-16-LE, unpack succeeds when the two reserved fields are 0 and 1, and
  raises the mismatch error carrying the observed pair and the expected pair (0, 1) for
  every other pair.  A name field that is not well-formed UTF-16-LE makes unpack raise the
  decoding error, whatever the reserved fields hold.
\<close>

theorem header_unpack_reserved:
  "pos s + 416 \<le> length (buf s) \<Longrightarrow>
   (utf_16_le_decode (name_field (header_blob s)) = Inr t \<longrightarrow>
      (reserved_fields (header_blob s) = (0, 1) \<longrightarrow>
         ArchiveHeaderSerializer_unpack meta_header_layout s =
           Inr (\<lparr>name = Some (rstrip_nul t), ptrs = Some (ptrs_field (header_blob s)),
                 sha_256 = hash_field (header_blob s)\<rparr>,
                s\<lparr>pos := pos s + 416\<rparr>)) \<and>
      (reserved_fields (header_blob s) \<noteq> (0, 1) \<longrightarrow>
         ArchiveHeaderSerializer_unpack meta_header_layout s =
           Inl (MismatchError ''Reserved Flags'' (reserved_fields (header_blob s)) (0, 1)))) \<and>
   (utf_16_le_decode (name_field (header_blob s)) = Inl e \<longrightarrow>
      ArchiveHeaderSerializer_unpack meta_header_layout s = Inl e)"
  by (simp add: header_unpack_cases header_blob_length)

theorem header_unpack_reserved_witness:
  "ArchiveHeaderSerializer_unpack meta_header_layout \<lparr>buf = zero_header, pos = 0\<rparr> =
     Inr (\<lparr>name = Some [], ptrs = Some ArchivePtrs_default, sha_256 = replicate 256 0\<rparr>,
          \<lparr>buf = zero_header, pos = 416\<rparr>) \<and>
   ArchiveHeaderSerializer_unpack meta_header_layout \<lparr>buf = wrong_reserved_header, pos = 0\<rparr> =
     Inl (MismatchError ''Reserved Flags'' (7, 1) (0, 1)) \<and>
   ArchiveHeaderSerializer_unpack meta_header_layout \<lparr>buf = bad_name_header, pos = 0\<rparr> =
     Inl UnicodeDecodeError"
proof -
  have l: "length zero_header = 416" "length wrong_reserved_header = 416"
    "length bad_name_header = 416"
    by (simp_all add: zero_header_def wrong_reserved_header_def bad_name_header_def)
  show ?thesis
    using header_unpack_reserved[of "\<lparr>buf = zero_header, pos = 0\<rparr>" "replicate 64 0" UnicodeDecodeError]
      header_unpack_reserved[of "\<lparr>buf = wrong_reserved_header, pos = 0\<rparr>" "replicate 64 0" UnicodeDecodeError]
      header_unpack_reserved[of "\<lparr>buf = bad_name_header, pos = 0\<rparr>" "[]" UnicodeDecodeError]
    by (simp add: l zero_header_fields(1,3,4,5) wrong_reserved_header_fields(1,3)
        bad_name_header_fields(1,3) decoded_name_fields rstrip_nul_zeros)
qed

theorem header_unpack_bad_name_counterexample:
  "length bad_name_header = 416 \<and>
   reserved_fields bad_name_header = (0, 1) \<and>
   ArchiveHeaderSerializer_unpack meta_header_layout \<lparr>buf = bad_name_header, pos = 0\<rparr>
     = Inl UnicodeDecodeError"
proof -
  have "length bad_name_header = 416" by (simp add: bad_name_header_def)
  then show ?thesis
    by (simp add: header_unpack_cases bad_name_header_fields(1,3) decoded_name_fields)
qed

subsection \<open>Claim C3\<close>

text \<open>
  Claim C3.  Unpacking a file definition splits the flags byte into the storage value
  (byte AND 0x0F) and the encryption value ((byte AND 0xF0) shifted right by 4).  A
  storage value that is no member of \<^verbatim>\<open>StorageType\<close> and an encryption value that is no
  member of \<^verbatim>\<open>EncryptionType\<close> each raise the \<^verbatim>\<open>ValueError\<close> of the enumeration; a
  result that is returned carries exactly the two values.  Packing writes
  (encryption shifted left by 4) OR storage as the flags byte.
\<close>

theorem FileDef_flags_nibbles:
  "pos s + 30 \<le> length (buf s) \<Longrightarrow>
   storage_value = flags_field (file_blob s) AND 0x0F \<Longrightarrow>
   encryption_value = drop_bit 4 (flags_field (file_blob s) AND 0xF0) \<Longrightarrow>
   (storage_value \<notin> set storage_members \<longrightarrow>
      FileDefSerializer_unpack storage_members verification_members file_layout s =
        Inl (EnumValueError ''StorageType'' (PyInt storage_value))) \<and>
   (storage_value \<in> set storage_members \<and> encryption_value \<noteq> 0 \<and> encryption_value \<noteq> 1 \<longrightarrow>
      FileDefSerializer_unpack storage_members verification_members file_layout s =
        Inl (EnumValueError ''EncryptionType'' (PyInt encryption_value))) \<and>
   (FileDefSerializer_unpack storage_members verification_members file_layout s = Inr (d, s') \<longrightarrow>
      storage_type d = storage_value \<and> EncryptionType_value (encryption d) = encryption_value) \<and>
   (FileDefSerializer_pack file_layout s0 v = Inr (n, s1) \<longrightarrow>
      flags_field (file_blob (stream_seek s1 (pos s0))) =
        (push_bit 4 (EncryptionType_value (encryption v)) OR storage_type v))"
proof (intro conjI impI)
  assume a: "pos s + 30 \<le> length (buf s)"
    and sv: "storage_value = flags_field (file_blob s) AND 0x0F"
    and ev: "encryption_value = drop_bit 4 (flags_field (file_blob s) AND 0xF0)"
  have len: "length (file_blob s) = 30" using a by (simp add: file_blob_def)
  {
    assume "storage_value \<notin> set storage_members"
    then show "FileDefSerializer_unpack storage_members verification_members file_layout s =
        Inl (EnumValueError ''StorageType'' (PyInt storage_value))"
      by (simp add: FileDef_unpack_cases len sv StorageType_def Enum_call_def)
  next
    assume "storage_value \<in> set storage_members \<and> encryption_value \<noteq> 0 \<and> encryption_value \<noteq> 1"
    then show "FileDefSerializer_unpack storage_members verification_members file_layout s =
        Inl (EnumValueError ''EncryptionType'' (PyInt encryption_value))"
      by (simp add: FileDef_unpack_cases len sv ev StorageType_def Enum_call_def
          EncryptionType_call_def)
  next
    assume r: "FileDefSerializer_unpack storage_members verification_members file_layout s = Inr (d, s')"
    then show "storage_type d = storage_value"
      by (auto simp: FileDef_unpack_cases len sv StorageType_def Enum_call_def
          split: sum.splits if_splits)
    from r show "EncryptionType_value (encryption d) = encryption_value"
      by (auto simp: FileDef_unpack_cases len ev EncryptionType_call_def
          split: sum.splits if_splits)
  next
    assume "FileDefSerializer_pack file_layout s0 v = Inr (n, s1)"
    from FileDef_written_flags[OF this]
    show "flags_field (file_blob (stream_seek s1 (pos s0))) =
        (push_bit 4 (EncryptionType_value (encryption v)) OR storage_type v)"
      by (simp add: storage_and_encryption_flags_def ENCRYPTION_SHIFT_def)
  }
qed

theorem FileDef_flags_nibbles_witness:
  "FileDefSerializer_unpack [0, 1, 2] [0, 1, 2, 3, 4] file_layout \<lparr>buf = bad_storage_bytes, pos = 0\<rparr> =
     Inl (EnumValueError ''StorageType'' (PyInt 7)) \<and>
   FileDefSerializer_unpack [0, 1, 2] [0, 1, 2, 3, 4] file_layout \<lparr>buf = bad_encryption_bytes, pos = 0\<rparr> =
     Inl (EnumValueError ''EncryptionType'' (PyInt 3)) \<and>
   FileDefSerializer_unpack [0, 1, 2] [0, 1, 2, 3, 4] file_layout \<lparr>buf = scenario_bytes, pos = 0\<rparr> =
     Inr (example_FileDef, \<lparr>buf = scenario_bytes, pos = 30\<rparr>) \<and>
   storage_type example_FileDef = 2 \<and> EncryptionType_value (encryption example_FileDef) = 1 \<and>
   FileDefSerializer_pack file_layout \<lparr>buf = [], pos = 0\<rparr> example_FileDef =
     Inr (30, \<lparr>buf = scenario_bytes, pos = 30\<rparr>) \<and>
   flags_field (file_blob (stream_seek \<lparr>buf = scenario_bytes, pos = 30\<rparr> 0)) = 0x12"
proof -
  have v: "7 = (0x17::int) AND 0x0F" "1 = drop_bit 4 ((0x17::int) AND 0xF0)"
    "2 = (0x32::int) AND 0x0F" "3 = drop_bit 4 ((0x32::int) AND 0xF0)"
    "2 = (0x12::int) AND 0x0F" "1 = drop_bit 4 ((0x12::int) AND 0xF0)" by simp_all
  have l: "length scenario_bytes = 30" by (simp add: scenario_bytes_def)
  have u: "FileDefSerializer_unpack [0, 1, 2] [0, 1, 2, 3, 4] file_layout \<lparr>buf = scenario_bytes, pos = 0\<rparr> =
     Inr (example_FileDef, \<lparr>buf = scenario_bytes, pos = 30\<rparr>)"
    by (rule scenario_unpack) simp_all
  have a: "FileDefSerializer_unpack [0, 1, 2] [0, 1, 2, 3, 4] file_layout
      \<lparr>buf = bad_storage_bytes, pos = 0\<rparr> = Inl (EnumValueError ''StorageType'' (PyInt 7))"
  proof -
    have "pos \<lparr>buf = bad_storage_bytes, pos = 0\<rparr> + 30 \<le> length (buf \<lparr>buf = bad_storage_bytes, pos = 0\<rparr>)"
      by (simp add: bad_bytes_fields(5))
    moreover have "7 = flags_field (file_blob \<lparr>buf = bad_storage_bytes, pos = 0\<rparr>) AND 0x0F"
      "1 = drop_bit 4 (flags_field (file_blob \<lparr>buf = bad_storage_bytes, pos = 0\<rparr>) AND 0xF0)"
      unfolding bad_bytes_fields by (rule v)+
    ultimately show ?thesis
      using FileDef_flags_nibbles[where storage_members = "[0, 1, 2]"
          and verification_members = "[0, 1, 2, 3, 4]" and storage_value = 7
          and encryption_value = 1 and s = "\<lparr>buf = bad_storage_bytes, pos = 0\<rparr>", THEN conjunct1]
      by simp
  qed
  have b: "FileDefSerializer_unpack [0, 1, 2] [0, 1, 2, 3, 4] file_layout
      \<lparr>buf = bad_encryption_bytes, pos = 0\<rparr> = Inl (EnumValueError ''EncryptionType'' (PyInt 3))"
  proof -
    have "pos \<lparr>buf = bad_encryption_bytes, pos = 0\<rparr> + 30 \<le> length (buf \<lparr>buf = bad_encryption_bytes, pos = 0\<rparr>)"
      by (simp add: bad_bytes_fields(6))
    moreover have "2 = flags_field (file_blob \<lparr>buf = bad_encryption_bytes, pos = 0\<rparr>) AND 0x0F"
      "3 = drop_bit 4 (flags_field (file_blob \<lparr>buf = bad_encryption_bytes, pos = 0\<rparr>) AND 0xF0)"
      unfolding bad_bytes_fields by (rule v)+
    ultimately show ?thesis
      using FileDef_flags_nibbles[where storage_members = "[0, 1, 2]"
          and verification_members = "[0, 1, 2, 3, 4]" and storage_value = 2
          and encryption_value = 3 and s = "\<lparr>buf = bad_encryption_bytes, pos = 0\<rparr>",
          THEN conjunct2, THEN conjunct1]
      by simp
  qed
  have c: "storage_type example_FileDef = 2 \<and> EncryptionType_value (encryption example_FileDef) = 1"
    and d: "flags_field (file_blob (stream_seek \<lparr>buf = scenario_bytes, pos = 30\<rparr> 0)) = 0x12"
  proof -
    have p: "pos \<lparr>buf = scenario_bytes, pos = 0\<rparr> + 30 \<le> length (buf \<lparr>buf = scenario_bytes, pos = 0\<rparr>)"
      by (simp add: l)
    have q: "2 = flags_field (file_blob \<lparr>buf = scenario_bytes, pos = 0\<rparr>) AND 0x0F"
      "1 = drop_bit 4 (flags_field (file_blob \<lparr>buf = scenario_bytes, pos = 0\<rparr>) AND 0xF0)"
      unfolding scenario_blob scenario_fields by (rule v)+
    note t = FileDef_flags_nibbles[OF p q, where storage_members = "[0, 1, 2]"
          and verification_members = "[0, 1, 2, 3, 4]" and d = example_FileDef
          and s' = "\<lparr>buf = scenario_bytes, pos = 30\<rparr>" and ?s0.0 = "\<lparr>buf = [], pos = 0\<rparr>"
          and v = example_FileDef and n = 30 and ?s1.0 = "\<lparr>buf = scenario_bytes, pos = 30\<rparr>"]
    from t[THEN conjunct2, THEN conjunct2, THEN conjunct1] u
    show "storage_type example_FileDef = 2 \<and> EncryptionType_value (encryption example_FileDef) = 1"
      by simp
    from t[THEN conjunct2, THEN conjunct2, THEN conjunct2] scenario_pack
    have "flags_field (file_blob (stream_seek \<lparr>buf = scenario_bytes, pos = 30\<rparr> (pos \<lparr>buf = [], pos = 0\<rparr>))) =
        push_bit 4 (EncryptionType_value (encryption example_FileDef)) OR storage_type example_FileDef"
      by simp
    then show "flags_field (file_blob (stream_seek \<lparr>buf = scenario_bytes, pos = 30\<rparr> 0)) = 0x12"
      by (simp add: example_FileDef_def)
  qed
  from a b u c d scenario_pack show ?thesis by simp
qed

subsection \<open>Claim C4\<close>

text \<open>
  Claim C4.  The 30-byte buffer of the scenario, unpacked with enumerations that have the
  members 2 (storage) and 1 (verification), gives the file definition with
  \<open>storage_type = 2\<close>, \<open>encryption = AES128\<close>, \<open>verification = 1\<close> and
  \<open>crc = 0xDEADBEEF\<close>, and packing that file definition writes the 30 bytes again.
\<close>

theorem scenario_decode_encode:
  "2 \<in> set storage_members \<Longrightarrow> 1 \<in> set verification_members \<Longrightarrow>
   FileDefSerializer_unpack storage_members verification_members file_layout
       \<lparr>buf = [0x10, 0, 0, 0,  0x20, 0, 0, 0,  0, 0x10, 0, 0, 0, 0, 0, 0,  100, 0, 0, 0,
               50, 0, 0, 0,  1,  0x12,  0xEF, 0xBE, 0xAD, 0xDE], pos = 0\<rparr> =
     Inr (\<lparr>name_pos = Some 0x10, data_pos = Some 0x1000, length_on_disk = Some 50,
           length_in_archive = Some 100, storage_type = 2, verification = 1,
           encryption = AES128, crc = PyInt 0xDEADBEEF, hash_pos = PyInt 0x20\<rparr>,
          \<lparr>buf = [0x10, 0, 0, 0,  0x20, 0, 0, 0,  0, 0x10, 0, 0, 0, 0, 0, 0,  100, 0, 0, 0,
                  50, 0, 0, 0,  1,  0x12,  0xEF, 0xBE, 0xAD, 0xDE], pos = 30\<rparr>) \<and>
   FileDefSerializer_pack file_layout \<lparr>buf = [], pos = 0\<rparr>
       \<lparr>name_pos = Some 0x10, data_pos = Some 0x1000, length_on_disk = Some 50,
        length_in_archive = Some 100, storage_type = 2, verification = 1,
        encryption = AES128, crc = PyInt 0xDEADBEEF, hash_pos = PyInt 0x20\<rparr> =
     Inr (30, \<lparr>buf = [0x10, 0, 0, 0,  0x20, 0, 0, 0,  0, 0x10, 0, 0, 0, 0, 0, 0,  100, 0, 0, 0,
                     50, 0, 0, 0,  1,  0x12,  0xEF, 0xBE, 0xAD, 0xDE], pos = 30\<rparr>)"
  using scenario_unpack[of storage_members verification_members] scenario_pack
  by (simp add: scenario_bytes_def example_FileDef_def)

theorem scenario_decode_encode_witness:
  "FileDefSerializer_unpack [0, 1, 2] [0, 1, 2, 3, 4] file_layout
       \<lparr>buf = [0x10, 0, 0, 0,  0x20, 0, 0, 0,  0, 0x10, 0, 0, 0, 0, 0, 0,  100, 0, 0, 0,
               50, 0, 0, 0,  1,  0x12,  0xEF, 0xBE, 0xAD, 0xDE], pos = 0\<rparr> =
     Inr (\<lparr>name_pos = Some 0x10, data_pos = Some 0x1000, length_on_disk = Some 50,
           length_in_archive = Some 100, storage_type = 2, verification = 1,
           encryption = AES128, crc = PyInt 0xDEADBEEF, hash_pos = PyInt 0x20\<rparr>,
          \<lparr>buf = [0x10, 0, 0, 0,  0x20, 0, 0, 0,  0, 0x10, 0, 0, 0, 0, 0, 0,  100, 0, 0, 0,
                  50, 0, 0, 0,  1,  0x12,  0xEF, 0xBE, 0xAD, 0xDE], pos = 30\<rparr>)"
  using scenario_decode_encode[of "[0, 1, 2]" "[0, 1, 2, 3, 4]"] by simp

subsection \<open>Claim C5\<close>

text \<open>
  Claim C5.  Whatever the \<^verbatim>\<open>MetaBlock\<close>, the header that pack writes holds 0 and 1 in its
  two reserved fields; the record has no field from which they could be taken.
\<close>

theorem header_pack_reserved:
  "ArchiveHeaderSerializer_pack meta_header_layout s m = Inr (n, s') \<Longrightarrow>
   reserved_fields (header_blob (stream_seek s' (pos s))) = (0, 1)"
  using header_written[of s m n s'] by (auto simp: header_bytes_fields(3))

theorem header_pack_reserved_witness:
  "\<exists>n s'. ArchiveHeaderSerializer_pack meta_header_layout \<lparr>buf = [], pos = 0\<rparr> MetaBlock_default
            = Inr (n, s') \<and>
          reserved_fields (header_blob (stream_seek s' 0)) = (0, 1)"
proof -
  from MetaBlock_unpack_pack[OF valid_MetaBlock_default, of "\<lparr>buf = [], pos = 0\<rparr>"]
  obtain s' where pk: "ArchiveHeaderSerializer_pack meta_header_layout \<lparr>buf = [], pos = 0\<rparr>
      MetaBlock_default = Inr (416, s')" by blast
  from header_pack_reserved[OF pk] pk show ?thesis by auto
qed

subsection \<open>Claim C6\<close>

text \<open>
  Claim C6.  Disassembling the dictionary that \<^verbatim>\<open>assemble_meta\<close> produced returns the
  footer itself (\<open>unk_a\<close>, \<open>unk_b\<close> and \<open>block_size\<close>) and a \<^verbatim>\<open>MetaBlock\<close> with
  the same hash bytes, carried through the dictionary as their hexadecimal string, and
  with \<^verbatim>\<open>None\<close> as name and as pointers.
\<close>

theorem disassemble_assemble_meta:
  "assemble_meta s1 header footer ''sha_256'' = Some (PyStr (bytes_hex (sha_256 header))) \<and>
   disassemble_meta s2 (assemble_meta s1 header footer) =
     Inr (\<lparr>name = None, ptrs = None, sha_256 = sha_256 header\<rparr>, footer)"
  by (simp add: assemble_meta_def disassemble_meta_def getitem_def fromhex_def fromhex_hex
      cast_def)

subsection \<open>Claim C7\<close>

text \<open>
  Claim C7 (as amended).  \<^verbatim>\<open>MetaBlock.default()\<close> returns the placeholder named
  ``Default Meta Block'' whose hash is 16 repeats of the 16-byte pattern
  \<^verbatim>\<open>b"default hash.   "\<close>, 256 bytes in all, and whose pointers are the zeroed default
  pointers.
\<close>

theorem MetaBlock_default_placeholder:
  "sha_256 MetaBlock_default = concat (replicate 16 (bytes_lit ''default hash.   '')) \<and>
   length (bytes_lit ''default hash.   '') = 16 \<and>
   length (sha_256 MetaBlock_default) = 256 \<and>
   ptrs MetaBlock_default = Some ArchivePtrs_default \<and>
   name MetaBlock_default = Some (str_lit ''Default Meta Block'')"
  by (simp add: MetaBlock_default_def bytes_lit_def length_concat sum_list_replicate
      ArchivePtrs_default_def)

theorem MetaBlock_default_hash_counterexample:
  "length (sha_256 MetaBlock_default) = 16 * 16 \<and>
   length (concat (replicate 32 (bytes_lit ''default hash.   ''))) = 32 * 16 \<and>
   sha_256 MetaBlock_default \<noteq> concat (replicate 32 (bytes_lit ''default hash.   ''))"
proof -
  have a: "length (sha_256 MetaBlock_default) = 256"
    by (simp add: MetaBlock_default_def bytes_lit_def length_concat sum_list_replicate)
  have b: "length (concat (replicate 32 (bytes_lit ''default hash.   ''))) = 512"
    by (simp add: bytes_lit_def length_concat sum_list_replicate)
  have "sha_256 MetaBlock_default \<noteq> concat (replicate 32 (bytes_lit ''default hash.   ''))"
  proof
    assume "sha_256 MetaBlock_default = concat (replicate 32 (bytes_lit ''default hash.   ''))"
    then have "length (sha_256 MetaBlock_default) =
        length (concat (replicate 32 (bytes_lit ''default hash.   '')))"
      by simp
    with a b show False by simp
  qed
  with a b show ?thesis by simp
qed

subsection \<open>Claim C8\<close>

text \<open>
  Claim C8 (as amended).  The hash of every \<^verbatim>\<open>MetaBlock\<close> that unpack returns is 256
  bytes long.  Pack accepts a hash of any length: for every \<^verbatim>\<open>MetaBlock\<close> whose name
  can be encoded and whose pointers fit their fields, whatever its hash, pack returns, and
  the hash field of the header it writes is 256 bytes long, the hash of the record cut to
  256 bytes or filled with zero bytes up to 256.
\<close>

theorem header_hash_256_bytes:
  "(ArchiveHeaderSerializer_unpack meta_header_layout s = Inr (m, s') \<longrightarrow>
      length (sha_256 m) = 256) \<and>
   (name m0 = Some n \<and> utf_16_le_encode n = Inr e \<and> ptrs m0 = Some p \<and> ptrs_fit p \<longrightarrow>
      (\<exists>s1. ArchiveHeaderSerializer_pack meta_header_layout s0 m0 = Inr (416, s1) \<and>
            hash_field (header_blob (stream_seek s1 (pos s0))) =
              take 256 (sha_256 m0) @ replicate (256 - length (sha_256 m0)) 0 \<and>
            length (hash_field (header_blob (stream_seek s1 (pos s0)))) = 256)) \<and>
   (ArchiveHeaderSerializer_pack meta_header_layout s0 m0 = Inr (k, s2) \<longrightarrow>
      hash_field (header_blob (stream_seek s2 (pos s0))) =
        take 256 (sha_256 m0) @ replicate (256 - length (sha_256 m0)) 0 \<and>
      length (hash_field (header_blob (stream_seek s2 (pos s0)))) = 256)"
proof (intro conjI impI)
  assume "ArchiveHeaderSerializer_unpack meta_header_layout s = Inr (m, s')"
  then have "length (header_blob s) = 416" "sha_256 m = hash_field (header_blob s)"
    by (auto simp: header_unpack_cases split: if_splits sum.splits)
  then show "length (sha_256 m) = 256" by (simp add: hash_field_def)
next
  assume "name m0 = Some n \<and> utf_16_le_encode n = Inr e \<and> ptrs m0 = Some p \<and> ptrs_fit p"
  then show "\<exists>s1. ArchiveHeaderSerializer_pack meta_header_layout s0 m0 = Inr (416, s1) \<and>
            hash_field (header_blob (stream_seek s1 (pos s0))) =
              take 256 (sha_256 m0) @ replicate (256 - length (sha_256 m0)) 0 \<and>
            length (hash_field (header_blob (stream_seek s1 (pos s0)))) = 256"
    using header_pack_hash[of m0 n e p s0] by blast
next
  assume pk: "ArchiveHeaderSerializer_pack meta_header_layout s0 m0 = Inr (k, s2)"
  from header_written[OF pk] obtain e p where pf: "ptrs_fit p"
    and hb: "header_blob (stream_seek s2 (pos s0)) = header_bytes e p (sha_256 m0)" by blast
  show h: "hash_field (header_blob (stream_seek s2 (pos s0))) =
        take 256 (sha_256 m0) @ replicate (256 - length (sha_256 m0)) 0"
    by (simp add: hb header_bytes_fields(4)[OF pf])
  show "length (hash_field (header_blob (stream_seek s2 (pos s0)))) = 256"
    unfolding h by simp
qed

theorem header_hash_256_bytes_witness:
  "ArchiveHeaderSerializer_unpack meta_header_layout \<lparr>buf = zero_header, pos = 0\<rparr> =
     Inr (\<lparr>name = Some [], ptrs = Some ArchivePtrs_default, sha_256 = replicate 256 0\<rparr>,
          \<lparr>buf = zero_header, pos = 416\<rparr>) \<and>
   length (sha_256 \<lparr>name = Some [], ptrs = Some ArchivePtrs_default, sha_256 = replicate 256 0\<rparr>) = 256 \<and>
   (\<exists>s1. ArchiveHeaderSerializer_pack meta_header_layout \<lparr>buf = [], pos = 0\<rparr> digest_block
            = Inr (416, s1) \<and>
         hash_field (header_blob (stream_seek s1 0)) = replicate 32 7 @ replicate 224 0 \<and>
         length (hash_field (header_blob (stream_seek s1 0))) = 256) \<and>
   length (sha_256 oversize_block) = 300 \<and>
   (\<exists>s1. ArchiveHeaderSerializer_pack meta_header_layout \<lparr>buf = [], pos = 0\<rparr> oversize_block
            = Inr (416, s1) \<and>
         hash_field (header_blob (stream_seek s1 0)) = replicate 256 7 \<and>
         length (hash_field (header_blob (stream_seek s1 0))) = 256)"
proof -
  let ?m = "\<lparr>name = Some [], ptrs = Some ArchivePtrs_default, sha_256 = replicate 256 (0::byte)\<rparr>"
  let ?s = "\<lparr>buf = [], pos = 0\<rparr> :: stream"
  have "length zero_header = 416" by (simp add: zero_header_def)
  then have u: "ArchiveHeaderSerializer_unpack meta_header_layout \<lparr>buf = zero_header, pos = 0\<rparr> =
     Inr (?m, \<lparr>buf = zero_header, pos = 416\<rparr>)"
    by (simp add: header_unpack_cases zero_header_fields(1,3,4,5) decoded_name_fields
        rstrip_nul_zeros)
  have o: "name oversize_block = Some (str_lit ''Default Meta Block'')"
    "ptrs oversize_block = Some ArchivePtrs_default" "sha_256 oversize_block = replicate 300 7"
    by (simp_all add: oversize_block_def MetaBlock_default_def)
  from header_hash_256_bytes[of "\<lparr>buf = zero_header, pos = 0\<rparr>" ?m
      "\<lparr>buf = zero_header, pos = 416\<rparr>", THEN conjunct1] u
  have a: "length (sha_256 ?m) = 256" by blast
  have b: "\<exists>s1. ArchiveHeaderSerializer_pack meta_header_layout ?s digest_block = Inr (416, s1) \<and>
         hash_field (header_blob (stream_seek s1 0)) = replicate 32 7 @ replicate 224 0 \<and>
         length (hash_field (header_blob (stream_seek s1 0))) = 256"
    using header_hash_256_bytes[of _ _ _ digest_block "str_lit ''Default Meta Block''"
        default_name_bytes ArchivePtrs_default ?s, THEN conjunct2, THEN conjunct1]
      digest_block_fields default_name_bytes(1) ptrs_fit_default
    by simp
  have c: "\<exists>s1. ArchiveHeaderSerializer_pack meta_header_layout ?s oversize_block = Inr (416, s1) \<and>
         hash_field (header_blob (stream_seek s1 0)) = replicate 256 7 \<and>
         length (hash_field (header_blob (stream_seek s1 0))) = 256"
    using header_hash_256_bytes[of _ _ _ oversize_block "str_lit ''Default Meta Block''"
        default_name_bytes ArchivePtrs_default ?s, THEN conjunct2, THEN conjunct1]
      o default_name_bytes(1) ptrs_fit_default
    by simp
  from u a b c o(3) show ?thesis by simp
qed

theorem header_hash_length_counterexample:
  "ArchiveHeaderSerializer_unpack meta_header_layout \<lparr>buf = zero_header, pos = 0\<rparr> =
     Inr (\<lparr>name = Some [], ptrs = Some ArchivePtrs_default, sha_256 = replicate 256 0\<rparr>,
          \<lparr>buf = zero_header, pos = 416\<rparr>) \<and>
   length (replicate 256 (0::byte)) \<noteq> 32"
proof -
  have "length zero_header = 416" by (simp add: zero_header_def)
  then show ?thesis
    by (simp add: header_unpack_cases zero_header_fields(1,3,4,5) decoded_name_fields
        rstrip_nul_zeros)
qed

subsection \<open>Claim C9\<close>

text \<open>
  Claim C9.  For a file definition whose storage type and verification type are members
  of their enumerations, \<^verbatim>\<open>meta2def(def2meta(d))\<close> returns the file definition with
  the storage type, verification type, encryption type, hash position and CRC of \<open>d\<close>, and
  with \<^verbatim>\<open>None\<close> as name position, data position and both lengths.
\<close>

theorem meta2def_def2meta:
  "storage_type d \<in> set storage_members \<Longrightarrow> verification d \<in> set verification_members \<Longrightarrow>
   meta2def storage_members verification_members (def2meta d) =
     Inr \<lparr>name_pos = None, data_pos = None, length_on_disk = None, length_in_archive = None,
          storage_type = storage_type d, verification = verification d,
          encryption = encryption d, crc = crc d, hash_pos = hash_pos d\<rparr>"
  by (simp add: meta2def_def def2meta_def getitem_def Enum_call_obj_def StorageType_def
      VerificationType_def Enum_call_def EncryptionType_call_value cast_def Let_def)

theorem meta2def_def2meta_witness:
  "meta2def [0, 1, 2] [0, 1, 2, 3, 4] (def2meta example_FileDef) =
     Inr \<lparr>name_pos = None, data_pos = None, length_on_disk = None, length_in_archive = None,
          storage_type = 2, verification = 1, encryption = AES128, crc = PyInt 0xDEADBEEF,
          hash_pos = PyInt 0x20\<rparr>"
  using meta2def_def2meta[of example_FileDef "[0, 1, 2]" "[0, 1, 2, 3, 4]"]
  by (simp add: example_FileDef_def)

subsection \<open>Claim C10\<close>

text \<open>
  Claim C10 (as amended).  Take a \<^verbatim>\<open>MetaBlock\<close> whose name encodes to more than 128
  bytes.  Pack raises \<^verbatim>\<open>AttributeError\<close> when the pointers are \<^verbatim>\<open>None\<close> and
  \<^verbatim>\<open>struct.error\<close> when a pointer does not fit its field.  When the pointers fit,
  pack returns: it writes 416 bytes whose name field is the first 128 bytes of the
  encoded name, and unpacking them either raises the decoding error (the first 128 bytes
  are not well-formed, as when the cut falls inside a surrogate pair) or returns the
  \<^verbatim>\<open>MetaBlock\<close> whose name is those 128 bytes decoded and stripped of trailing NUL, a
  name different from the one packed.  Whenever packing and unpacking return the
  \<^verbatim>\<open>MetaBlock\<close> itself, its name encodes to at most 128 bytes and does not end in NUL.
\<close>

theorem long_name_truncated:
  "(name m = Some n \<and> utf_16_le_encode n = Inr e \<and> 128 < length e \<longrightarrow>
      (case ptrs m of
         None \<Rightarrow> ArchiveHeaderSerializer_pack meta_header_layout s m = Inl AttributeError
       | Some p \<Rightarrow>
           if \<not> ptrs_fit p
           then ArchiveHeaderSerializer_pack meta_header_layout s m = Inl StructError
           else (\<exists>s'. ArchiveHeaderSerializer_pack meta_header_layout s m = Inr (416, s') \<and>
               name_field (header_blob (stream_seek s' (pos s))) = take 128 e \<and>
               (case utf_16_le_decode (take 128 e) of
                  Inl x \<Rightarrow>
                    ArchiveHeaderSerializer_unpack meta_header_layout (stream_seek s' (pos s))
                      = Inl UnicodeDecodeError
                | Inr t \<Rightarrow>
                    rstrip_nul t \<noteq> n \<and>
                    ArchiveHeaderSerializer_unpack meta_header_layout (stream_seek s' (pos s)) =
                      Inr (\<lparr>name = Some (rstrip_nul t), ptrs = Some p,
                            sha_256 = take 256 (sha_256 m) @
                              replicate (256 - length (sha_256 m)) 0\<rparr>,
                           s'))))) \<and>
   (ArchiveHeaderSerializer_pack meta_header_layout s m = Inr (k, s1) \<and>
    ArchiveHeaderSerializer_unpack meta_header_layout (stream_seek s1 (pos s)) = Inr (m, s2) \<longrightarrow>
      (\<exists>n e. name m = Some n \<and> utf_16_le_encode n = Inr e \<and> length e \<le> 128 \<and>
             (n = [] \<or> last n \<noteq> 0)))"
proof (intro conjI impI)
  assume a: "name m = Some n \<and> utf_16_le_encode n = Inr e \<and> 128 < length e"
  show "case ptrs m of
         None \<Rightarrow> ArchiveHeaderSerializer_pack meta_header_layout s m = Inl AttributeError
       | Some p \<Rightarrow>
           if \<not> ptrs_fit p
           then ArchiveHeaderSerializer_pack meta_header_layout s m = Inl StructError
           else (\<exists>s'. ArchiveHeaderSerializer_pack meta_header_layout s m = Inr (416, s') \<and>
               name_field (header_blob (stream_seek s' (pos s))) = take 128 e \<and>
               (case utf_16_le_decode (take 128 e) of
                  Inl x \<Rightarrow>
                    ArchiveHeaderSerializer_unpack meta_header_layout (stream_seek s' (pos s))
                      = Inl UnicodeDecodeError
                | Inr t \<Rightarrow>
                    rstrip_nul t \<noteq> n \<and>
                    ArchiveHeaderSerializer_unpack meta_header_layout (stream_seek s' (pos s)) =
                      Inr (\<lparr>name = Some (rstrip_nul t), ptrs = Some p,
                            sha_256 = take 256 (sha_256 m) @
                              replicate (256 - length (sha_256 m)) 0\<rparr>,
                           s')))"
  proof (cases "ptrs m")
    case None
    with a show ?thesis by (simp add: ArchiveHeaderSerializer_pack_def)
  next
    case (Some p)
    show ?thesis
    proof (cases "ptrs_fit p")
      case False
      with a Some show ?thesis by (simp add: header_pack_overflow)
    next
      case True
      from a Some long_name_pack[of m n e p s, OF _ _ _ _ True] obtain s' where
        pk: "ArchiveHeaderSerializer_pack meta_header_layout s m = Inr (416, s')"
        and nf: "name_field (header_blob (stream_seek s' (pos s))) = take 128 e"
        by blast
      from a Some long_name_unpack[OF pk, of n e p]
      have "case utf_16_le_decode (take 128 e) of
                  Inl x \<Rightarrow>
                    ArchiveHeaderSerializer_unpack meta_header_layout (stream_seek s' (pos s))
                      = Inl UnicodeDecodeError
                | Inr t \<Rightarrow>
                    rstrip_nul t \<noteq> n \<and>
                    ArchiveHeaderSerializer_unpack meta_header_layout (stream_seek s' (pos s)) =
                      Inr (\<lparr>name = Some (rstrip_nul t), ptrs = Some p,
                            sha_256 = take 256 (sha_256 m) @
                              replicate (256 - length (sha_256 m)) 0\<rparr>,
                           s')"
        by blast
      with pk nf have "\<exists>s'. ArchiveHeaderSerializer_pack meta_header_layout s m = Inr (416, s') \<and>
               name_field (header_blob (stream_seek s' (pos s))) = take 128 e \<and>
               (case utf_16_le_decode (take 128 e) of
                  Inl x \<Rightarrow>
                    ArchiveHeaderSerializer_unpack meta_header_layout (stream_seek s' (pos s))
                      = Inl UnicodeDecodeError
                | Inr t \<Rightarrow>
                    rstrip_nul t \<noteq> n \<and>
                    ArchiveHeaderSerializer_unpack meta_header_layout (stream_seek s' (pos s)) =
                      Inr (\<lparr>name = Some (rstrip_nul t), ptrs = Some p,
                            sha_256 = take 256 (sha_256 m) @
                              replicate (256 - length (sha_256 m)) 0\<rparr>,
                           s'))"
        by blast
      with Some True show ?thesis by simp
    qed
  qed
next
  assume "ArchiveHeaderSerializer_pack meta_header_layout s m = Inr (k, s1) \<and>
    ArchiveHeaderSerializer_unpack meta_header_layout (stream_seek s1 (pos s)) = Inr (m, s2)"
  then show "\<exists>n e. name m = Some n \<and> utf_16_le_encode n = Inr e \<and> length e \<le> 128 \<and>
             (n = [] \<or> last n \<noteq> 0)"
    using roundtrip_name_fits[of s m k s1 s2] by blast
qed

theorem long_name_truncated_witness:
  "(\<exists>s'. ArchiveHeaderSerializer_pack meta_header_layout \<lparr>buf = [], pos = 0\<rparr> long_name_block
           = Inr (416, s') \<and>
         name_field (header_blob (stream_seek s' 0)) = concat (replicate 64 [65, 0]) \<and>
         ArchiveHeaderSerializer_unpack meta_header_layout (stream_seek s' 0) =
           Inr (\<lparr>name = Some (replicate 64 65), ptrs = Some ArchivePtrs_default,
                 sha_256 = sha_256 MetaBlock_default\<rparr>, s') \<and>
         replicate 64 65 \<noteq> (replicate 65 65 :: pystr)) \<and>
   (\<exists>s'. ArchiveHeaderSerializer_pack meta_header_layout \<lparr>buf = [], pos = 0\<rparr> split_pair_block
           = Inr (416, s') \<and>
         ArchiveHeaderSerializer_unpack meta_header_layout (stream_seek s' 0)
           = Inl UnicodeDecodeError) \<and>
   ArchiveHeaderSerializer_pack meta_header_layout \<lparr>buf = [], pos = 0\<rparr> overflow_block
     = Inl StructError \<and>
   ArchiveHeaderSerializer_pack meta_header_layout \<lparr>buf = [], pos = 0\<rparr> no_ptrs_block
     = Inl AttributeError \<and>
   (\<exists>s1. ArchiveHeaderSerializer_pack meta_header_layout \<lparr>buf = [], pos = 0\<rparr> MetaBlock_default
           = Inr (416, s1) \<and>
         ArchiveHeaderSerializer_unpack meta_header_layout (stream_seek s1 0)
           = Inr (MetaBlock_default, s1) \<and>
         (\<exists>n e. name MetaBlock_default = Some n \<and> utf_16_le_encode n = Inr e \<and>
                length e \<le> 128 \<and> (n = [] \<or> last n \<noteq> 0)))"
proof -
  let ?s = "\<lparr>buf = [], pos = 0\<rparr> :: stream"
  have a: "\<exists>s'. ArchiveHeaderSerializer_pack meta_header_layout ?s long_name_block
           = Inr (416, s') \<and>
         name_field (header_blob (stream_seek s' 0)) = concat (replicate 64 [65, 0]) \<and>
         ArchiveHeaderSerializer_unpack meta_header_layout (stream_seek s' 0) =
           Inr (\<lparr>name = Some (replicate 64 65), ptrs = Some ArchivePtrs_default,
                 sha_256 = sha_256 MetaBlock_default\<rparr>, s') \<and>
         replicate 64 65 \<noteq> (replicate 65 65 :: pystr)"
    using long_name_truncated[of long_name_block "replicate 65 65"
        "concat (replicate 65 [65, 0])" ?s, THEN conjunct1]
      long_name_block_fields long_name_encoded ptrs_fit_default
    by (simp add: long_name_cut default_hash_length)
  have b: "\<exists>s'. ArchiveHeaderSerializer_pack meta_header_layout ?s split_pair_block
           = Inr (416, s') \<and>
         ArchiveHeaderSerializer_unpack meta_header_layout (stream_seek s' 0)
           = Inl UnicodeDecodeError"
    using long_name_truncated[of split_pair_block "replicate 63 65 @ [0x1F600]"
        split_pair_name_bytes ?s, THEN conjunct1]
      split_pair_block_fields split_pair_name_encoded ptrs_fit_default
    by (auto simp: split_pair_cut)
  have c: "ArchiveHeaderSerializer_pack meta_header_layout ?s overflow_block = Inl StructError"
    using long_name_truncated[of overflow_block "replicate 65 65"
        "concat (replicate 65 [65, 0])" ?s, THEN conjunct1]
      overflow_block_fields long_name_encoded
    by simp
  have d: "ArchiveHeaderSerializer_pack meta_header_layout ?s no_ptrs_block = Inl AttributeError"
    using long_name_truncated[of no_ptrs_block "replicate 65 65"
        "concat (replicate 65 [65, 0])" ?s, THEN conjunct1]
      no_ptrs_block_fields long_name_encoded
    by simp
  from MetaBlock_unpack_pack[OF valid_MetaBlock_default, of ?s]
  obtain s1 where pk: "ArchiveHeaderSerializer_pack meta_header_layout ?s
      MetaBlock_default = Inr (416, s1)"
    and up: "ArchiveHeaderSerializer_unpack meta_header_layout (stream_seek s1 0)
      = Inr (MetaBlock_default, s1)" by auto
  from long_name_truncated[of MetaBlock_default _ _ ?s 416 s1 s1, THEN conjunct2] pk up
  have "\<exists>n e. name MetaBlock_default = Some n \<and> utf_16_le_encode n = Inr e \<and>
                length e \<le> 128 \<and> (n = [] \<or> last n \<noteq> 0)"
    by simp
  with a b c d pk up show ?thesis by blast
qed

theorem long_name_counterexample:
  "name split_pair_block = Some (replicate 63 65 @ [0x1F600]) \<and>
   utf_16_le_encode (replicate 63 65 @ [0x1F600]) = Inr split_pair_name_bytes \<and>
   length split_pair_name_bytes = 130 \<and>
   ArchiveHeaderSerializer_pack meta_header_layout \<lparr>buf = [], pos = 0\<rparr> split_pair_block =
     Inr (416, \<lparr>buf = split_pair_header, pos = 416\<rparr>) \<and>
   ArchiveHeaderSerializer_unpack meta_header_layout
       (stream_seek \<lparr>buf = split_pair_header, pos = 416\<rparr> 0) = Inl UnicodeDecodeError \<and>
   name overflow_block = Some (replicate 65 65) \<and>
   utf_16_le_encode (replicate 65 65) = Inr (concat (replicate 65 [65, 0])) \<and>
   length (concat (replicate 65 [65, 0::byte])) = 130 \<and>
   ArchiveHeaderSerializer_pack meta_header_layout \<lparr>buf = [], pos = 0\<rparr> overflow_block =
     Inl StructError"
proof -
  have s: "stream_seek \<lparr>buf = split_pair_header, pos = 416\<rparr> 0 = \<lparr>buf = split_pair_header, pos = 0\<rparr>"
    by (simp add: stream_seek_def)
  from split_pair_block_fields(1) split_pair_name_encoded split_pair_pack split_pair_unpack
    overflow_block_fields(1) long_name_encoded overflow_pack
  show ?thesis unfolding s by blast
qed

end
